theory Spec2Isabelle
  imports Main
begin

section \<open>Values, dictionaries and Python's rules on them\<close>

text \<open>
  The three scripts handle what \<^verbatim>\<open>response.json()\<close> returns: Python values built from
  \<^verbatim>\<open>None\<close>, booleans, integers, strings, lists and dictionaries. \<open>JNull\<close> is
  Python's \<^verbatim>\<open>None\<close> (JSON \<^verbatim>\<open>null\<close> parses to it). A dictionary is an association
  list with distinct keys, in insertion order, read with \<open>map_of\<close>. Characters are
  ASCII; numbers with a fraction are not represented.
\<close>

datatype json =
    JNull
  | JBool bool
  | JInt int
  | JStr string
  | JList "json list"
  | JObj "(string \<times> json) list"

text \<open>
  The exceptions the scripts can meet. \<open>HTTPError\<close> is what
  \<^verbatim>\<open>raise_for_status\<close> raises, \<open>JSONDecodeError\<close> (a \<^verbatim>\<open>ValueError\<close>) what
  \<^verbatim>\<open>response.json()\<close> raises on a body that does not parse, \<open>RequestException\<close>
  a failure of the transport itself, \<open>ValueError\<close> the one raised by the monitor's
  \<^verbatim>\<open>main\<close>, \<open>EOFError\<close> what \<^verbatim>\<open>input()\<close> raises at the end of the input.
\<close>

datatype error =
    HTTPError nat
  | JSONDecodeError
  | RequestException
  | AttributeError
  | TypeError
  | ValueError
  | EOFError

text \<open>Truth value testing, as \<^verbatim>\<open>if x\<close> and \<^verbatim>\<open>not x\<close> do it.\<close>

fun truthy :: "json \<Rightarrow> bool" where
  "truthy JNull = False"
| "truthy (JBool b) = b"
| "truthy (JInt n) = (n \<noteq> 0)"
| "truthy (JStr s) = (s \<noteq> [])"
| "truthy (JList xs) = (xs \<noteq> [])"
| "truthy (JObj kvs) = (kvs \<noteq> [])"

text \<open>
  \<^verbatim>\<open>d.get(k, dflt)\<close>: only a dictionary has the method; on any other value the call
  raises \<^verbatim>\<open>AttributeError\<close>. \<^verbatim>\<open>d.get(k)\<close> is \<open>dict_get d k JNull\<close>.
\<close>

definition dict_get :: "json \<Rightarrow> string \<Rightarrow> json \<Rightarrow> error + json" where
  "dict_get d k dflt =
     (case d of
        JObj kvs \<Rightarrow> (case map_of kvs k of None \<Rightarrow> Inr dflt | Some v \<Rightarrow> Inr v)
      | _ \<Rightarrow> Inl AttributeError)"

text \<open>
  Iteration over a value, as \<^verbatim>\<open>list.extend\<close>, a comprehension and \<^verbatim>\<open>for\<close> do it:
  a list gives its elements, a string its characters, a dictionary its keys; the other
  values are not iterable (\<^verbatim>\<open>TypeError\<close>).
\<close>

fun py_iter :: "json \<Rightarrow> error + json list" where
  "py_iter (JList xs) = Inr xs"
| "py_iter (JStr s) = Inr (map (\<lambda>c. JStr [c]) s)"
| "py_iter (JObj kvs) = Inr (map (\<lambda>kv. JStr (fst kv)) kvs)"
| "py_iter JNull = Inl TypeError"
| "py_iter (JBool b) = Inl TypeError"
| "py_iter (JInt n) = Inl TypeError"

definition list_extend :: "json list \<Rightarrow> json \<Rightarrow> error + json list" where
  "list_extend acc v = (case py_iter v of Inl e \<Rightarrow> Inl e | Inr xs \<Rightarrow> Inr (acc @ xs))"

text \<open>Decimal text of an integer, as an f-string writes it.\<close>

fun str_nat :: "nat \<Rightarrow> string" where
  "str_nat n =
     (if n < 10 then [char_of (48 + n)]
      else str_nat (n div 10) @ [char_of (48 + n mod 10)])"

definition str_int :: "int \<Rightarrow> string" where
  "str_int i = (if i < 0 then CHR ''-'' # str_nat (nat (- i)) else str_nat (nat i))"

section \<open>The network\<close>

text \<open>
  A request as \<^verbatim>\<open>requests.get(url, headers=..., params=...)\<close> and
  \<^verbatim>\<open>requests.post(url, json=...)\<close> receive it. The URL of a GET is a value, since
  the boards export passes on whatever the response carried as next link.
\<close>

datatype request =
    Get json "(string \<times> string) list" "(string \<times> json) list"
  | Post string json

text \<open>
  Of a response the scripts read the status code and the parsed body; \<open>body = None\<close>
  is a body that \<^verbatim>\<open>response.json()\<close> cannot parse.
\<close>

record response =
  status_code :: nat
  body :: "json option"

text \<open>
  The remote side answers a request knowing every request sent before it, or the
  transport fails (\<open>Inl\<close>). The requests sent so far are the state the scripts thread.
\<close>

type_synonym net = "request list \<Rightarrow> request \<Rightarrow> error + response"

text \<open>\<^verbatim>\<open>response.raise_for_status()\<close> raises on the codes 400 to 599.\<close>

definition raise_for_status :: "response \<Rightarrow> error + unit" where
  "raise_for_status r =
     (if 400 \<le> status_code r \<and> status_code r < 600 then Inl (HTTPError (status_code r))
      else Inr ())"

section \<open>miro\_license\_monitor\<close>

text \<open>
  The functions of \<^verbatim>\<open>miro_license_monitor.py\<close>. Its \<^verbatim>\<open>fetch_members\<close> and
  \<^verbatim>\<open>main\<close> are \<open>monitor_fetch_members\<close> and \<open>monitor_main\<close> here, since
  the other scripts have functions of the same names.
\<close>

definition members_url :: "string \<Rightarrow> string" where
  "members_url org_id = ''https://api.miro.com/v2/orgs/'' @ org_id @ ''/members''"

definition members_headers :: "string \<Rightarrow> (string \<times> string) list" where
  "members_headers api_token =
     [(''Authorization'', ''Bearer '' @ api_token), (''Accept'', ''application/json'')]"

text \<open>\<^verbatim>\<open>params = {"cursor": cursor} if cursor else {}\<close>\<close>

definition cursor_params :: "json \<Rightarrow> (string \<times> json) list" where
  "cursor_params cursor = (if truthy cursor then [(''cursor'', cursor)] else [])"

text \<open>
  The \<^verbatim>\<open>while True\<close> loop of \<^verbatim>\<open>fetch_members\<close>. Its state is \<open>members\<close>,
  \<open>cursor\<close> and the requests sent. The result \<open>None\<close> is a loop that never ends;
  \<open>Some (Inl e, sent)\<close> is the exception \<open>e\<close> leaving the function.
\<close>

partial_function (option) monitor_fetch_loop ::
  "net \<Rightarrow> string \<Rightarrow> (string \<times> string) list \<Rightarrow> json list \<Rightarrow> json \<Rightarrow> request list
     \<Rightarrow> ((error + json list) \<times> request list) option" where
  "monitor_fetch_loop nt url headers members cursor sent =
     (let req = Get (JStr url) headers (cursor_params cursor); sent' = sent @ [req] in
      case nt sent req of
        Inl e \<Rightarrow> Some (Inl e, sent')
      | Inr response \<Rightarrow>
          (case raise_for_status response of
             Inl e \<Rightarrow> Some (Inl e, sent')
           | Inr _ \<Rightarrow>
               (case body response of
                  None \<Rightarrow> Some (Inl JSONDecodeError, sent')
                | Some data \<Rightarrow>
                    (case dict_get data ''data'' (JList []) of
                       Inl e \<Rightarrow> Some (Inl e, sent')
                     | Inr page \<Rightarrow>
                         (case list_extend members page of
                            Inl e \<Rightarrow> Some (Inl e, sent')
                          | Inr members' \<Rightarrow>
                              (case dict_get data ''cursor'' JNull of
                                 Inl e \<Rightarrow> Some (Inl e, sent')
                               | Inr cursor' \<Rightarrow>
                                   if \<not> truthy cursor' then Some (Inr members', sent')
                                   else monitor_fetch_loop nt url headers members' cursor' sent'))))))"

definition monitor_fetch_members ::
  "net \<Rightarrow> request list \<Rightarrow> string \<Rightarrow> string \<Rightarrow> ((error + json list) \<times> request list) option" where
  "monitor_fetch_members nt sent api_token org_id =
     monitor_fetch_loop nt (members_url org_id) (members_headers api_token) [] JNull sent"

definition post_to_slack ::
  "net \<Rightarrow> request list \<Rightarrow> string \<Rightarrow> string \<Rightarrow> (error + unit) \<times> request list" where
  "post_to_slack nt sent webhook_url message =
     (let payload = JObj [(''text'', JStr message)];
          req = Post webhook_url payload;
          sent' = sent @ [req]
      in case nt sent req of
           Inl e \<Rightarrow> (Inl e, sent')
         | Inr response \<Rightarrow> (raise_for_status response, sent'))"

text \<open>
  The list comprehension of \<^verbatim>\<open>main\<close>:
  \<^verbatim>\<open>[member for member in members if member.get("active") and member.get("license") == "full"]\<close>.
  \<^verbatim>\<open>and\<close> reads the licence only when \<^verbatim>\<open>active\<close> is truthy.
\<close>

fun licensed_users :: "json list \<Rightarrow> error + json list" where
  "licensed_users [] = Inr []"
| "licensed_users (member # members) =
     (case dict_get member ''active'' JNull of
        Inl e \<Rightarrow> Inl e
      | Inr active \<Rightarrow>
          (case (if truthy active then dict_get member ''license'' JNull else Inr JNull) of
             Inl e \<Rightarrow> Inl e
           | Inr license \<Rightarrow>
               (case licensed_users members of
                  Inl e \<Rightarrow> Inl e
                | Inr rest \<Rightarrow>
                    Inr (if truthy active \<and> license = JStr ''full'' then member # rest else rest))))"

definition nl :: string where
  "nl = [CHR 0x0A]"

text \<open>The two f-strings of \<^verbatim>\<open>main\<close>, chosen by \<^verbatim>\<open>used_licenses > total_licenses\<close>.\<close>

definition alert_message :: "int \<Rightarrow> int \<Rightarrow> string" where
  "alert_message used_licenses total_licenses =
     (let available_licenses = total_licenses - used_licenses in
      if used_licenses > total_licenses then
        '':rotating_light::miro: *Miro License Alert* :miro::rotating_light:'' @ nl @
        ''Used Licenses: '' @ str_int used_licenses @ nl @
        ''Total Licenses: '' @ str_int total_licenses @ nl @
        ''Overage: '' @ str_int (used_licenses - total_licenses) @ nl @
        ''*Immediate action required to resolve the overage.*''
      else
        '':miro: *Miro License Report* :miro:'' @ nl @
        ''Used Licenses: '' @ str_int used_licenses @ nl @
        ''Total Licenses: '' @ str_int total_licenses @ nl @
        ''Available Licenses: '' @ str_int available_licenses @ nl @
        ''*All licenses are within the allocated limit.*'')"

text \<open>\<^verbatim>\<open>not x\<close> on what \<^verbatim>\<open>os.getenv\<close> returns: unset, or set to the empty string.\<close>

definition env_missing :: "string option \<Rightarrow> bool" where
  "env_missing v = (case v of None \<Rightarrow> True | Some s \<Rightarrow> s = [])"

definition total_licenses :: int where
  "total_licenses = 600"

definition monitor_main ::
  "(string \<Rightarrow> string option) \<Rightarrow> net \<Rightarrow> ((error + unit) \<times> request list) option" where
  "monitor_main getenv nt =
     (let api_token = getenv ''MIRO_API_TOKEN'';
          org_id = getenv ''MIRO_ORG_ID'';
          slack_webhook_url = getenv ''SLACK_WEBHOOK_URL''
      in if env_missing api_token \<or> env_missing org_id \<or> env_missing slack_webhook_url
         then Some (Inl ValueError, [])
         else
           (case monitor_fetch_members nt [] (the api_token) (the org_id) of
              None \<Rightarrow> None
            | Some (Inl e, sent) \<Rightarrow> Some (Inl e, sent)
            | Some (Inr members, sent) \<Rightarrow>
                (case licensed_users members of
                   Inl e \<Rightarrow> Some (Inl e, sent)
                 | Inr licensed \<Rightarrow>
                     (let used_licenses = int (length licensed) in
                      Some (post_to_slack nt sent (the slack_webhook_url)
                              (alert_message used_licenses total_licenses))))))"

section \<open>Console input, token file and CSV output of the export scripts\<close>

text \<open>
  \<^verbatim>\<open>str.strip()\<close> removes the white space at both ends (the ASCII characters that
  \<^verbatim>\<open>str.isspace\<close> accepts).
\<close>

definition is_space :: "char \<Rightarrow> bool" where
  "is_space c = (let n = (of_char c :: nat) in (9 \<le> n \<and> n \<le> 13) \<or> (28 \<le> n \<and> n \<le> 32))"

definition strip :: "string \<Rightarrow> string" where
  "strip s = rev (dropWhile is_space (rev (dropWhile is_space s)))"

text \<open>
  What a path is to \<^verbatim>\<open>os.path.isfile\<close> and \<^verbatim>\<open>open(...).read()\<close>: no regular
  file, a file that cannot be read, or a file with its text.
\<close>

datatype fsentry = NoFile | Unreadable | File string

text \<open>
  \<^verbatim>\<open>str(v)\<close>. The text of a list or a dictionary is left to \<open>repr\<close>, Python's own
  printer, which the scripts take from the language.
\<close>

definition py_str :: "(json \<Rightarrow> string) \<Rightarrow> json \<Rightarrow> string" where
  "py_str repr v =
     (case v of
        JStr s \<Rightarrow> s
      | JNull \<Rightarrow> ''None''
      | JBool b \<Rightarrow> (if b then ''True'' else ''False'')
      | JInt n \<Rightarrow> str_int n
      | _ \<Rightarrow> repr v)"

text \<open>
  The text of a field as the \<^verbatim>\<open>csv\<close> writer takes it, before any quoting:
  \<^verbatim>\<open>None\<close> is the empty field, any other value its \<^verbatim>\<open>str\<close>.
\<close>

definition csv_field :: "(json \<Rightarrow> string) \<Rightarrow> json \<Rightarrow> string" where
  "csv_field repr v = (case v of JNull \<Rightarrow> [] | _ \<Rightarrow> py_str repr v)"

text \<open>\<^verbatim>\<open>sep.join(xs)\<close>\<close>

fun join :: "string \<Rightarrow> string list \<Rightarrow> string" where
  "join sep [] = []"
| "join sep [x] = x"
| "join sep (x # y # ys) = x @ sep @ join sep (y # ys)"

text \<open>
  The elements of a list or dictionary display are evaluated from left to right; the
  first exception ends the evaluation.
\<close>

fun sequence_err :: "(error + 'a) list \<Rightarrow> error + 'a list" where
  "sequence_err [] = Inr []"
| "sequence_err (Inl e # xs) = Inl e"
| "sequence_err (Inr v # xs) = (case sequence_err xs of Inl e \<Rightarrow> Inl e | Inr vs \<Rightarrow> Inr (v # vs))"

text \<open>
  What a run of an export script leaves: the exception that ended it, if any, the
  requests sent, and the rows of the CSV file when the file was opened.
\<close>

record run =
  raised :: "error option"
  requests :: "request list"
  csv :: "string list list option"

section \<open>miro\_members\_export\<close>

text \<open>
  The functions of \<^verbatim>\<open>miro_members_export.py\<close>, each with the prefix \<open>members\<close>.
  What the scripts print on the console is left out.
\<close>

text \<open>
  The loop of \<^verbatim>\<open>fetch_members\<close>: a status other than 200 leaves the loop with
  \<^verbatim>\<open>break\<close>; \<^verbatim>\<open>response.json()\<close> is outside any \<^verbatim>\<open>try\<close>.
\<close>

partial_function (option) members_fetch_loop ::
  "net \<Rightarrow> string \<Rightarrow> (string \<times> string) list \<Rightarrow> json list \<Rightarrow> json \<Rightarrow> request list
     \<Rightarrow> ((error + json list) \<times> request list) option" where
  "members_fetch_loop nt url headers members cursor sent =
     (let req = Get (JStr url) headers (cursor_params cursor); sent' = sent @ [req] in
      case nt sent req of
        Inl e \<Rightarrow> Some (Inl e, sent')
      | Inr response \<Rightarrow>
          if status_code response \<noteq> 200 then Some (Inr members, sent')
          else
            (case body response of
               None \<Rightarrow> Some (Inl JSONDecodeError, sent')
             | Some data \<Rightarrow>
                 (case dict_get data ''data'' (JList []) of
                    Inl e \<Rightarrow> Some (Inl e, sent')
                  | Inr page \<Rightarrow>
                      (case list_extend members page of
                         Inl e \<Rightarrow> Some (Inl e, sent')
                       | Inr members' \<Rightarrow>
                           (case dict_get data ''cursor'' JNull of
                              Inl e \<Rightarrow> Some (Inl e, sent')
                            | Inr cursor' \<Rightarrow>
                                if \<not> truthy cursor' then Some (Inr members', sent')
                                else members_fetch_loop nt url headers members' cursor' sent')))))"

text \<open>
  \<^verbatim>\<open>fetch_members(api_token)\<close> asks for the organization id on the console first;
  \<open>stdin\<close> holds the lines not yet read. Nothing reads the console afterwards.
\<close>

definition members_fetch_members ::
  "net \<Rightarrow> request list \<Rightarrow> string list \<Rightarrow> string
     \<Rightarrow> ((error + json list) \<times> request list) option" where
  "members_fetch_members nt sent stdin api_token =
     (case stdin of
        [] \<Rightarrow> Some (Inl EOFError, sent)
      | line # _ \<Rightarrow>
          (let org_id = strip line in
           members_fetch_loop nt (members_url org_id) (members_headers api_token) [] JNull sent))"

definition members_fieldnames :: "string list" where
  "members_fieldnames =
     [''id'', ''active'', ''adminRoles'', ''email'', ''lastActivityAt'', ''license'',
      ''licenseAssignedAt'', ''role'', ''type'']"

text \<open>The dictionary handed to \<^verbatim>\<open>writer.writerow\<close>, in the order of the field names.\<close>

definition member_row :: "(json \<Rightarrow> string) \<Rightarrow> json \<Rightarrow> error + json list" where
  "member_row repr member =
     (case dict_get member ''adminRoles'' (JList []) of
        Inl e \<Rightarrow> Inl e
      | Inr admin_roles \<Rightarrow>
          (case py_iter admin_roles of
             Inl e \<Rightarrow> Inl e
           | Inr roles \<Rightarrow>
               (let admin_roles_str = join '', '' (map (py_str repr) roles) in
                sequence_err
                  [dict_get member ''id'' JNull,
                   dict_get member ''active'' JNull,
                   Inr (JStr admin_roles_str),
                   dict_get member ''email'' JNull,
                   dict_get member ''lastActivityAt'' (JStr ''N/A''),
                   dict_get member ''license'' JNull,
                   dict_get member ''licenseAssignedAt'' (JStr ''N/A''),
                   dict_get member ''role'' JNull,
                   dict_get member ''type'' JNull])))"

fun members_write_rows ::
  "(json \<Rightarrow> string) \<Rightarrow> json list \<Rightarrow> string list list \<Rightarrow> error option \<times> string list list" where
  "members_write_rows repr [] rows = (None, rows)"
| "members_write_rows repr (member # members) rows =
     (case member_row repr member of
        Inl e \<Rightarrow> (Some e, rows)
      | Inr row \<Rightarrow> members_write_rows repr members (rows @ [map (csv_field repr) row]))"

text \<open>\<^verbatim>\<open>export_to_csv\<close>: the header, then the loop over the members.\<close>

definition members_export_to_csv ::
  "(json \<Rightarrow> string) \<Rightarrow> json list \<Rightarrow> error option \<times> string list list" where
  "members_export_to_csv repr members = members_write_rows repr members [members_fieldnames]"

definition members_main ::
  "(string \<Rightarrow> fsentry) \<Rightarrow> (json \<Rightarrow> string) \<Rightarrow> net \<Rightarrow> string list \<Rightarrow> run option" where
  "members_main fs repr nt stdin =
     (case stdin of
        [] \<Rightarrow> Some \<lparr>raised = Some EOFError, requests = [], csv = None\<rparr>
      | line # stdin' \<Rightarrow>
          (let token_file_path = strip line in
           case fs token_file_path of
             NoFile \<Rightarrow> Some \<lparr>raised = None, requests = [], csv = None\<rparr>
           | Unreadable \<Rightarrow> Some \<lparr>raised = None, requests = [], csv = None\<rparr>
           | File text \<Rightarrow>
               (let api_token = strip text in
                if api_token = [] then Some \<lparr>raised = None, requests = [], csv = None\<rparr>
                else
                  (case members_fetch_members nt [] stdin' api_token of
                     None \<Rightarrow> None
                   | Some (Inl e, sent) \<Rightarrow> Some \<lparr>raised = Some e, requests = sent, csv = None\<rparr>
                   | Some (Inr members, sent) \<Rightarrow>
                       if members \<noteq> [] then
                         (case members_export_to_csv repr members of
                            (err, rows) \<Rightarrow> Some \<lparr>raised = err, requests = sent, csv = Some rows\<rparr>)
                       else Some \<lparr>raised = None, requests = sent, csv = None\<rparr>))))"

section \<open>miro\_boards\_export\<close>

text \<open>The functions of \<^verbatim>\<open>miro_boards_export.py\<close>, each with the prefix \<open>boards\<close>.\<close>

definition boards_url :: string where
  "boards_url = ''https://api.miro.com/v2/boards''"

definition boards_headers :: "string \<Rightarrow> (string \<times> string) list" where
  "boards_headers api_token = [(''Authorization'', ''Bearer '' @ api_token)]"

definition boards_params :: "(string \<times> json) list" where
  "boards_params = [(''limit'', JInt 50)]"

text \<open>
  The \<^verbatim>\<open>while url\<close> loop of \<^verbatim>\<open>fetch_boards\<close>: a status other than 200 and a
  body that does not parse both leave the loop with \<^verbatim>\<open>break\<close>.
\<close>

partial_function (option) boards_fetch_loop ::
  "net \<Rightarrow> (string \<times> string) list \<Rightarrow> (string \<times> json) list \<Rightarrow> json list \<Rightarrow> json \<Rightarrow> request list
     \<Rightarrow> ((error + json list) \<times> request list) option" where
  "boards_fetch_loop nt headers params boards url sent =
     (if \<not> truthy url then Some (Inr boards, sent)
      else
        (let req = Get url headers params; sent' = sent @ [req] in
         case nt sent req of
           Inl e \<Rightarrow> Some (Inl e, sent')
         | Inr response \<Rightarrow>
             if status_code response \<noteq> 200 then Some (Inr boards, sent')
             else
               (case body response of
                  None \<Rightarrow> Some (Inr boards, sent')
                | Some data \<Rightarrow>
                    (case dict_get data ''data'' (JList []) of
                       Inl e \<Rightarrow> Some (Inl e, sent')
                     | Inr page \<Rightarrow>
                         (case list_extend boards page of
                            Inl e \<Rightarrow> Some (Inl e, sent')
                          | Inr boards' \<Rightarrow>
                              (case dict_get data ''links'' (JObj []) of
                                 Inl e \<Rightarrow> Some (Inl e, sent')
                               | Inr links \<Rightarrow>
                                   (case dict_get links ''next'' JNull of
                                      Inl e \<Rightarrow> Some (Inl e, sent')
                                    | Inr next_link \<Rightarrow>
                                        if truthy next_link
                                        then boards_fetch_loop nt headers params boards' next_link sent'
                                        else Some (Inr boards', sent'))))))))"

definition boards_fetch_boards ::
  "net \<Rightarrow> request list \<Rightarrow> string \<Rightarrow> ((error + json list) \<times> request list) option" where
  "boards_fetch_boards nt sent api_token =
     boards_fetch_loop nt (boards_headers api_token) boards_params [] (JStr boards_url) sent"

definition boards_header :: "string list" where
  "boards_header = [''Board ID'', ''Name'', ''Owner'', ''Created At'', ''Modified At'', ''Link'']"

text \<open>The list handed to \<^verbatim>\<open>writer.writerow\<close> for one board.\<close>

definition board_row :: "json \<Rightarrow> error + json list" where
  "board_row board =
     sequence_err
       [dict_get board ''id'' JNull,
        dict_get board ''name'' JNull,
        (case dict_get board ''owner'' (JObj []) of
           Inl e \<Rightarrow> Inl e
         | Inr owner \<Rightarrow> dict_get owner ''name'' JNull),
        dict_get board ''createdAt'' JNull,
        dict_get board ''modifiedAt'' JNull,
        dict_get board ''viewLink'' JNull]"

fun boards_write_rows ::
  "(json \<Rightarrow> string) \<Rightarrow> json list \<Rightarrow> string list list \<Rightarrow> error option \<times> string list list" where
  "boards_write_rows repr [] rows = (None, rows)"
| "boards_write_rows repr (board # boards) rows =
     (case board_row board of
        Inl e \<Rightarrow> (Some e, rows)
      | Inr row \<Rightarrow> boards_write_rows repr boards (rows @ [map (csv_field repr) row]))"

definition boards_export_to_csv ::
  "(json \<Rightarrow> string) \<Rightarrow> json list \<Rightarrow> error option \<times> string list list" where
  "boards_export_to_csv repr boards = boards_write_rows repr boards [boards_header]"

definition boards_main ::
  "(string \<Rightarrow> fsentry) \<Rightarrow> (json \<Rightarrow> string) \<Rightarrow> net \<Rightarrow> string list \<Rightarrow> run option" where
  "boards_main fs repr nt stdin =
     (case stdin of
        [] \<Rightarrow> Some \<lparr>raised = Some EOFError, requests = [], csv = None\<rparr>
      | line # _ \<Rightarrow>
          (let token_file_path = strip line in
           case fs token_file_path of
             NoFile \<Rightarrow> Some \<lparr>raised = None, requests = [], csv = None\<rparr>
           | Unreadable \<Rightarrow> Some \<lparr>raised = None, requests = [], csv = None\<rparr>
           | File text \<Rightarrow>
               (let api_token = strip text in
                if api_token = [] then Some \<lparr>raised = None, requests = [], csv = None\<rparr>
                else
                  (case boards_fetch_boards nt [] api_token of
                     None \<Rightarrow> None
                   | Some (Inl e, sent) \<Rightarrow> Some \<lparr>raised = Some e, requests = sent, csv = None\<rparr>
                   | Some (Inr boards, sent) \<Rightarrow>
                       if boards = [] then Some \<lparr>raised = None, requests = sent, csv = None\<rparr>
                       else
                         (case boards_export_to_csv repr boards of
                            (err, rows) \<Rightarrow> Some \<lparr>raised = err, requests = sent, csv = Some rows\<rparr>)))))"

section \<open>Pages, page sequences and typed records\<close>

text \<open>
  The notions the properties below are stated with. A page is a list of records with
  its continuation token; a response carries the page \<open>(recs, tok)\<close> in the cursor
  style when its status is 200 and its body holds \<open>recs\<close> under \<^verbatim>\<open>data\<close> and
  \<open>tok\<close> under \<^verbatim>\<open>cursor\<close> (\<open>JNull\<close> when the key is absent).
\<close>

definition cursor_request :: "string \<Rightarrow> (string \<times> string) list \<Rightarrow> json \<Rightarrow> request" where
  "cursor_request url headers cursor = Get (JStr url) headers (cursor_params cursor)"

definition cursor_page :: "response \<Rightarrow> json list \<Rightarrow> json \<Rightarrow> bool" where
  "cursor_page r recs tok =
     (status_code r = 200 \<and>
      (case body r of
         None \<Rightarrow> False
       | Some data \<Rightarrow>
           dict_get data ''data'' (JList []) = Inr (JList recs) \<and>
           dict_get data ''cursor'' JNull = Inr tok))"

text \<open>
  \<open>cursor_served nt url headers sent cursor pages\<close>: starting after the requests
  \<open>sent\<close>, the request made with \<open>cursor\<close> is answered by the first page, the
  request made with that page's token by the second, and so on.
\<close>

fun cursor_served ::
  "net \<Rightarrow> string \<Rightarrow> (string \<times> string) list \<Rightarrow> request list \<Rightarrow> json
     \<Rightarrow> (json list \<times> json) list \<Rightarrow> bool" where
  "cursor_served nt url headers sent cursor [] = True"
| "cursor_served nt url headers sent cursor (p # ps) =
     (case nt sent (cursor_request url headers cursor) of
        Inl e \<Rightarrow> False
      | Inr r \<Rightarrow>
          cursor_page r (fst p) (snd p) \<and>
          cursor_served nt url headers (sent @ [cursor_request url headers cursor]) (snd p) ps)"

fun cursor_requests ::
  "string \<Rightarrow> (string \<times> string) list \<Rightarrow> json \<Rightarrow> (json list \<times> json) list \<Rightarrow> request list" where
  "cursor_requests url headers cursor [] = []"
| "cursor_requests url headers cursor (p # ps) =
     cursor_request url headers cursor # cursor_requests url headers (snd p) ps"

text \<open>The same in the link style: the token is the URL of the next request.\<close>

definition link_request :: "(string \<times> string) list \<Rightarrow> (string \<times> json) list \<Rightarrow> json \<Rightarrow> request" where
  "link_request headers params url = Get url headers params"

definition link_page :: "response \<Rightarrow> json list \<Rightarrow> json \<Rightarrow> bool" where
  "link_page r recs tok =
     (status_code r = 200 \<and>
      (case body r of
         None \<Rightarrow> False
       | Some data \<Rightarrow>
           dict_get data ''data'' (JList []) = Inr (JList recs) \<and>
           (case dict_get data ''links'' (JObj []) of
              Inl e \<Rightarrow> False
            | Inr links \<Rightarrow> dict_get links ''next'' JNull = Inr tok)))"

fun link_served ::
  "net \<Rightarrow> (string \<times> string) list \<Rightarrow> (string \<times> json) list \<Rightarrow> request list \<Rightarrow> json
     \<Rightarrow> (json list \<times> json) list \<Rightarrow> bool" where
  "link_served nt headers params sent url [] = True"
| "link_served nt headers params sent url (p # ps) =
     (case nt sent (link_request headers params url) of
        Inl e \<Rightarrow> False
      | Inr r \<Rightarrow>
          link_page r (fst p) (snd p) \<and>
          link_served nt headers params (sent @ [link_request headers params url]) (snd p) ps)"

fun link_requests ::
  "(string \<times> string) list \<Rightarrow> (string \<times> json) list \<Rightarrow> json \<Rightarrow> (json list \<times> json) list
     \<Rightarrow> request list" where
  "link_requests headers params url [] = []"
| "link_requests headers params url (p # ps) =
     link_request headers params url # link_requests headers params (snd p) ps"

text \<open>The token in force after a sequence of pages.\<close>

definition last_token :: "json \<Rightarrow> (json list \<times> json) list \<Rightarrow> json" where
  "last_token cursor ps = (if ps = [] then cursor else snd (last ps))"

definition has_token :: "json list \<times> json \<Rightarrow> bool" where
  "has_token p = truthy (snd p)"

text \<open>
  A complete page sequence: at least one page, every page but the last with a token,
  the last one without.
\<close>

fun complete_pages :: "(json list \<times> json) list \<Rightarrow> bool" where
  "complete_pages [] = False"
| "complete_pages [p] = (\<not> has_token p)"
| "complete_pages (p # q # ps) = (has_token p \<and> complete_pages (q # ps))"

text \<open>
  A page sequence with a token cycle: every page has a token, and the token of the last
  page is the token of an earlier one.
\<close>

definition token_cycle :: "(json list \<times> json) list \<Rightarrow> bool" where
  "token_cycle ps =
     (ps \<noteq> [] \<and> list_all has_token ps \<and> snd (last ps) \<in> set (map snd (butlast ps)))"

text \<open>A request of the cursor style that carries exactly one parameter, a truthy cursor.\<close>

definition later_request :: "string \<Rightarrow> (string \<times> string) list \<Rightarrow> request \<Rightarrow> bool" where
  "later_request url headers req =
     (case req of
        Get u h ps \<Rightarrow>
          u = JStr url \<and> h = headers \<and>
          (case ps of [kv] \<Rightarrow> fst kv = ''cursor'' \<and> truthy (snd kv) | _ \<Rightarrow> False)
      | Post u payload \<Rightarrow> False)"

definition is_post :: "request \<Rightarrow> bool" where
  "is_post req = (case req of Post u payload \<Rightarrow> True | Get u h ps \<Rightarrow> False)"

text \<open>
  The decision of the monitor as the specification names it, and the text the source
  writes for each variant.
\<close>

datatype AlertMessage = WithinLimit int int int | Overage int int int

fun message_text :: "AlertMessage \<Rightarrow> string" where
  "message_text (Overage u t x) =
     '':rotating_light::miro: *Miro License Alert* :miro::rotating_light:'' @ nl @
     ''Used Licenses: '' @ str_int u @ nl @
     ''Total Licenses: '' @ str_int t @ nl @
     ''Overage: '' @ str_int x @ nl @
     ''*Immediate action required to resolve the overage.*''"
| "message_text (WithinLimit u t a) =
     '':miro: *Miro License Report* :miro:'' @ nl @
     ''Used Licenses: '' @ str_int u @ nl @
     ''Total Licenses: '' @ str_int t @ nl @
     ''Available Licenses: '' @ str_int a @ nl @
     ''*All licenses are within the allocated limit.*''"

text \<open>
  Records as the data model types them: a member is a mapping whose \<^verbatim>\<open>active\<close>
  field, when present, is a boolean or null.
\<close>

definition bool_or_null :: "json \<Rightarrow> bool" where
  "bool_or_null v = (case v of JNull \<Rightarrow> True | JBool b \<Rightarrow> True | _ \<Rightarrow> False)"

definition member_typed :: "json \<Rightarrow> bool" where
  "member_typed m =
     (case m of
        JObj kvs \<Rightarrow> (case map_of kvs ''active'' of None \<Rightarrow> True | Some v \<Rightarrow> bool_or_null v)
      | _ \<Rightarrow> False)"

text \<open>The predicate of the specification: \<^verbatim>\<open>active == true AND license == "full"\<close>.\<close>

definition active_full :: "json \<Rightarrow> bool" where
  "active_full m =
     (dict_get m ''active'' JNull = Inr (JBool True) \<and>
      dict_get m ''license'' JNull = Inr (JStr ''full''))"

text \<open>
  For the exporters: a board is a mapping whose \<^verbatim>\<open>owner\<close>, when present, is a
  mapping; a member is a mapping whose \<^verbatim>\<open>adminRoles\<close>, when present, is a list of
  strings.
\<close>

definition board_typed :: "json \<Rightarrow> bool" where
  "board_typed b =
     (case b of
        JObj kvs \<Rightarrow>
          (case map_of kvs ''owner'' of None \<Rightarrow> True | Some (JObj o_kvs) \<Rightarrow> True | Some _ \<Rightarrow> False)
      | _ \<Rightarrow> False)"

definition is_str :: "json \<Rightarrow> bool" where
  "is_str v = (case v of JStr s \<Rightarrow> True | _ \<Rightarrow> False)"

definition export_member_typed :: "json \<Rightarrow> bool" where
  "export_member_typed m =
     (case m of
        JObj kvs \<Rightarrow>
          (case map_of kvs ''adminRoles'' of
             None \<Rightarrow> True
           | Some (JList rs) \<Rightarrow> list_all is_str rs
           | Some _ \<Rightarrow> False)
      | _ \<Rightarrow> False)"

text \<open>
  The rows the specification describes. \<open>field_of r k\<close> is the value of field \<open>k\<close>,
  \<open>JNull\<close> when the record has none; \<open>default_cell\<close> is the cell of a field that
  defaults to \<^verbatim>\<open>N/A\<close> when the record has no such key.
\<close>

definition field_of :: "json \<Rightarrow> string \<Rightarrow> json" where
  "field_of r k =
     (case r of
        JObj kvs \<Rightarrow> (case map_of kvs k of None \<Rightarrow> JNull | Some v \<Rightarrow> v)
      | _ \<Rightarrow> JNull)"

definition default_cell :: "(json \<Rightarrow> string) \<Rightarrow> json \<Rightarrow> string \<Rightarrow> string" where
  "default_cell repr r k =
     (case r of
        JObj kvs \<Rightarrow> (case map_of kvs k of None \<Rightarrow> ''N/A'' | Some v \<Rightarrow> csv_field repr v)
      | _ \<Rightarrow> ''N/A'')"

definition str_of :: "json \<Rightarrow> string" where
  "str_of v = (case v of JStr s \<Rightarrow> s | _ \<Rightarrow> [])"

definition roles_of :: "json \<Rightarrow> string list" where
  "roles_of m = (case field_of m ''adminRoles'' of JList rs \<Rightarrow> map str_of rs | _ \<Rightarrow> [])"

definition board_cells :: "(json \<Rightarrow> string) \<Rightarrow> json \<Rightarrow> string list" where
  "board_cells repr b =
     [csv_field repr (field_of b ''id''),
      csv_field repr (field_of b ''name''),
      csv_field repr (field_of (field_of b ''owner'') ''name''),
      csv_field repr (field_of b ''createdAt''),
      csv_field repr (field_of b ''modifiedAt''),
      csv_field repr (field_of b ''viewLink'')]"

definition member_cells :: "(json \<Rightarrow> string) \<Rightarrow> json \<Rightarrow> string list" where
  "member_cells repr m =
     [csv_field repr (field_of m ''id''),
      csv_field repr (field_of m ''active''),
      join '', '' (roles_of m),
      csv_field repr (field_of m ''email''),
      default_cell repr m ''lastActivityAt'',
      csv_field repr (field_of m ''license''),
      default_cell repr m ''licenseAssignedAt'',
      csv_field repr (field_of m ''role''),
      csv_field repr (field_of m ''type'')]"

section \<open>Example runs\<close>

text \<open>A remote side that answers the n-th request with the n-th response of a list.\<close>

definition scripted :: "response list \<Rightarrow> net" where
  "scripted rs sent req =
     (if length sent < length rs then Inr (rs ! length sent) else Inl RequestException)"

text \<open>A remote side that answers every request with the same response.\<close>

definition constant_net :: "response \<Rightarrow> net" where
  "constant_net r sent req = Inr r"

definition ok_page :: "json list \<Rightarrow> json \<Rightarrow> json \<Rightarrow> response" where
  "ok_page recs cursor next_link =
     \<lparr>status_code = 200,
      body = Some (JObj [(''data'', JList recs), (''cursor'', cursor),
                         (''links'', JObj [(''next'', next_link)])])\<rparr>"

definition last_page :: "json list \<Rightarrow> response" where
  "last_page recs = \<lparr>status_code = 200, body = Some (JObj [(''data'', JList recs)])\<rparr>"

definition server_error :: response where
  "server_error = \<lparr>status_code = 500, body = None\<rparr>"

definition garbled :: response where
  "garbled = \<lparr>status_code = 200, body = None\<rparr>"

definition member :: "string \<Rightarrow> bool \<Rightarrow> string \<Rightarrow> json" where
  "member ident active license =
     JObj [(''id'', JStr ident), (''active'', JBool active), (''license'', JStr license)]"

definition plain_repr :: "json \<Rightarrow> string" where
  "plain_repr v = ''?''"

definition board1 :: json where
  "board1 = JObj [(''id'', JStr ''b1''), (''name'', JStr ''Plan''),
                  (''owner'', JObj [(''id'', JStr ''u1''), (''name'', JStr ''Ann'')]),
                  (''createdAt'', JStr ''2024-01-01''), (''modifiedAt'', JStr ''2024-02-01''),
                  (''viewLink'', JStr ''https://miro.com/app/board/b1'')]"

definition board2 :: json where
  "board2 = JObj [(''id'', JStr ''b2''), (''name'', JStr ''Draft'')]"

definition member1 :: json where
  "member1 = JObj [(''id'', JStr ''m1''), (''active'', JBool True),
                   (''adminRoles'', JList [JStr ''admin'', JStr ''billing'']),
                   (''email'', JStr ''a@x.org''), (''lastActivityAt'', JNull),
                   (''license'', JStr ''full''), (''role'', JStr ''member''), (''type'', JStr ''user'')]"

text \<open>A file system with one token file.\<close>

definition token_fs :: "string \<Rightarrow> fsentry" where
  "token_fs path = (if path = ''token.txt'' then File ''tok'' else NoFile)"

definition three_pages :: "response list" where
  "three_pages =
     [ok_page [member ''m1'' True ''full''] (JStr ''c2'') (JStr ''https://api.miro.com/v2/boards?cursor=c2''),
      ok_page [member ''m2'' False ''full''] (JStr ''c3'') (JStr ''https://api.miro.com/v2/boards?cursor=c3''),
      last_page [member ''m3'' True ''basic'']]"

definition cursor_pages3 :: "(json list \<times> json) list" where
  "cursor_pages3 =
     [([member ''m1'' True ''full''], JStr ''c2''),
      ([member ''m2'' False ''full''], JStr ''c3''),
      ([member ''m3'' True ''basic''], JNull)]"

definition link_pages3 :: "(json list \<times> json) list" where
  "link_pages3 =
     [([member ''m1'' True ''full''], JStr ''https://api.miro.com/v2/boards?cursor=c2''),
      ([member ''m2'' False ''full''], JStr ''https://api.miro.com/v2/boards?cursor=c3''),
      ([member ''m3'' True ''basic''], JNull)]"

definition page_then_error :: "response list" where
  "page_then_error =
     [ok_page [member ''m1'' True ''full''] (JStr ''c2'') (JStr ''https://api.miro.com/v2/boards?cursor=c2''),
      server_error]"

definition page_then_garbled :: "response list" where
  "page_then_garbled =
     [ok_page [member ''m1'' True ''full''] (JStr ''c2'') (JStr ''https://api.miro.com/v2/boards?cursor=c2''),
      garbled]"

definition empty_cursor_page :: response where
  "empty_cursor_page =
     \<lparr>status_code = 200,
      body = Some (JObj [(''data'', JList [member ''m1'' True ''full'']), (''cursor'', JStr [])])\<rparr>"

definition monitor_env :: "string \<Rightarrow> string option" where
  "monitor_env name =
     (if name = ''MIRO_API_TOKEN'' then Some ''tok''
      else if name = ''MIRO_ORG_ID'' then Some ''org1''
      else if name = ''SLACK_WEBHOOK_URL'' then Some ''https://hooks.slack.com/services/T/B/X''
      else None)"

definition monitor_run :: "response list" where
  "monitor_run = three_pages @ [\<lparr>status_code = 200, body = None\<rparr>]"

definition member2 :: json where
  "member2 = JObj [(''id'', JStr ''m2''), (''active'', JBool False),
                   (''licenseAssignedAt'', JNull), (''license'', JStr ''basic'')]"

text \<open>A remote side that answers by the cursor of the request alone, round in a ring.\<close>

definition ring_srv :: "request \<Rightarrow> error + response" where
  "ring_srv req =
     (case req of
        Get u h ps \<Rightarrow>
          (if map_of ps ''cursor'' = Some (JStr ''a'') then Inr (ok_page [] (JStr ''b'') JNull)
           else Inr (ok_page [] (JStr ''a'') JNull))
      | Post u payload \<Rightarrow> Inl RequestException)"

section \<open>Properties\<close>

subsection \<open>Helper facts on dictionaries\<close>

lemma dict_get_obj:
  "dict_get (JObj kvs) k dflt = Inr (case map_of kvs k of None \<Rightarrow> dflt | Some v \<Rightarrow> v)"
  by (simp add: dict_get_def split: option.splits)

lemma active_full_obj:
  "active_full (JObj kvs) =
     (map_of kvs ''active'' = Some (JBool True) \<and> map_of kvs ''license'' = Some (JStr ''full''))"
  by (auto simp: active_full_def dict_get_obj split: option.splits)

lemma truthy_bool_or_null: "bool_or_null v \<Longrightarrow> truthy v = (v = JBool True)"
  by (cases v) (simp_all add: bool_or_null_def)

subsection \<open>The alert decision\<close>

text \<open>
  C1. For all integers \<open>u\<close> (used) and \<open>t\<close> (total), hence for all non-negative ones,
  the message of the monitor is the text of \<open>Overage u t (u - t)\<close> exactly when
  \<open>u > t\<close>, and the text of \<open>WithinLimit u t (t - u)\<close> exactly when not; \<open>u = t\<close>
  gives the within-limit text with 0 available. The two texts never coincide, so each
  pair gets one variant.
\<close>

theorem alert_decision:
  "(alert_message u t = message_text (Overage u t (u - t))) = (u > t)
   \<and> (alert_message u t = message_text (WithinLimit u t (t - u))) = (\<not> u > t)
   \<and> alert_message t t = message_text (WithinLimit t t 0)"
  by (simp add: alert_message_def Let_def)

theorem alert_decision_witness:
  "alert_message 601 600 = message_text (Overage 601 600 1)
   \<and> alert_message 600 600 = message_text (WithinLimit 600 600 0)
   \<and> alert_message 600 600 \<noteq> message_text (Overage 600 600 0)"
  using alert_decision [of 601 600] alert_decision [of 600 600] by simp

subsection \<open>Counting the licensed users\<close>

lemma licensed_users_typed:
  "list_all member_typed members \<Longrightarrow> licensed_users members = Inr (filter active_full members)"
proof (induction members)
  case Nil
  then show ?case by simp
next
  case (Cons m ms)
  then obtain kvs where m: "m = JObj kvs"
    by (auto simp: member_typed_def split: json.splits)
  from Cons.prems have rest: "licensed_users ms = Inr (filter active_full ms)"
    using Cons.IH by simp
  show ?case
  proof (cases "map_of kvs ''active''")
    case None
    then show ?thesis using m rest by (simp add: dict_get_obj active_full_obj)
  next
    case (Some v)
    with Cons.prems m have "bool_or_null v" by (simp add: member_typed_def)
    then have "truthy v = (v = JBool True)" by (rule truthy_bool_or_null)
    then show ?thesis using m rest Some
      by (auto simp: dict_get_obj active_full_obj split: option.splits)
  qed
qed

text \<open>
  C3. On members typed as the data model has them, the number of licensed users the
  monitor counts is the number of records with \<^verbatim>\<open>active == true\<close> and
  \<^verbatim>\<open>license == "full"\<close>; on the three members (active, full), (inactive, full),
  (active, basic) the count is 1.
\<close>

theorem filter_count:
  "(list_all member_typed members \<longrightarrow>
      map_sum id length (licensed_users members) = Inr (length (filter active_full members)))
   \<and> map_sum id length
        (licensed_users [member ''m1'' True ''full'', member ''m2'' False ''full'',
                         member ''m3'' True ''basic'']) = Inr 1"
proof -
  have "map_sum id length
        (licensed_users [member ''m1'' True ''full'', member ''m2'' False ''full'',
                         member ''m3'' True ''basic'']) = Inr 1"
    by (simp add: member_def dict_get_obj)
  then show ?thesis by (simp add: licensed_users_typed)
qed

theorem filter_count_witness:
  "list_all member_typed
     [member ''a'' True ''full'', member ''b'' True ''full'', member ''c'' False ''full'']
   \<and> map_sum id length
        (licensed_users
           [member ''a'' True ''full'', member ''b'' True ''full'', member ''c'' False ''full''])
       = Inr 2"
proof -
  have t: "list_all member_typed
     [member ''a'' True ''full'', member ''b'' True ''full'', member ''c'' False ''full'']"
    by (simp add: member_typed_def member_def bool_or_null_def)
  have "length (filter active_full
     [member ''a'' True ''full'', member ''b'' True ''full'', member ''c'' False ''full'']) = 2"
    by (simp add: active_full_obj member_def)
  with t filter_count
    [of "[member ''a'' True ''full'', member ''b'' True ''full'', member ''c'' False ''full'']"]
  show ?thesis by simp
qed

subsection \<open>The rows of the exports\<close>

lemma field_of_obj: "field_of (JObj kvs) k = (case map_of kvs k of None \<Rightarrow> JNull | Some v \<Rightarrow> v)"
  by (simp add: field_of_def)

lemma csv_field_str: "csv_field repr (JStr s) = s"
  by (simp add: csv_field_def py_str_def)

lemma csv_field_null: "csv_field repr JNull = []"
  by (simp add: csv_field_def)

lemma dict_get_field: "dict_get (JObj kvs) k JNull = Inr (field_of (JObj kvs) k)"
  by (simp add: dict_get_obj field_of_def)

lemma default_cell_obj:
  "csv_field repr (case map_of kvs k of None \<Rightarrow> JStr ''N/A'' | Some v \<Rightarrow> v) =
   default_cell repr (JObj kvs) k"
  by (simp add: default_cell_def csv_field_str split: option.splits)

lemma board_row_typed:
  assumes "board_typed b"
  shows "board_row b =
     Inr [field_of b ''id'', field_of b ''name'', field_of (field_of b ''owner'') ''name'',
          field_of b ''createdAt'', field_of b ''modifiedAt'', field_of b ''viewLink'']"
proof -
  from assms obtain kvs where b: "b = JObj kvs"
    by (auto simp: board_typed_def split: json.splits)
  have "(case dict_get b ''owner'' (JObj []) of Inl e \<Rightarrow> Inl e
         | Inr owner \<Rightarrow> dict_get owner ''name'' JNull) =
        Inr (field_of (field_of b ''owner'') ''name'')"
  proof (cases "map_of kvs ''owner''")
    case None
    then show ?thesis using b by (simp add: dict_get_obj field_of_def)
  next
    case (Some v)
    with assms b obtain o_kvs where "v = JObj o_kvs"
      by (auto simp: board_typed_def split: json.splits)
    with Some b show ?thesis by (simp add: dict_get_obj field_of_def)
  qed
  then show ?thesis using b by (simp add: board_row_def dict_get_field)
qed

lemma boards_write_rows_typed:
  "list_all board_typed boards \<Longrightarrow>
   boards_write_rows repr boards rows = (None, rows @ map (board_cells repr) boards)"
proof (induction boards arbitrary: rows)
  case Nil
  then show ?case by simp
next
  case (Cons b bs)
  then have "board_typed b" "list_all board_typed bs" by simp_all
  then show ?case
    using Cons.IH [of "rows @ [board_cells repr b]"]
    by (simp add: board_row_typed board_cells_def)
qed

lemma join_str_of: "list_all is_str rs \<Longrightarrow> map (py_str repr) rs = map str_of rs"
  by (induction rs) (auto simp: is_str_def py_str_def str_of_def split: json.splits)

lemma member_row_typed:
  assumes "export_member_typed m"
  shows "\<exists>row. member_row repr m = Inr row \<and> map (csv_field repr) row = member_cells repr m"
proof -
  from assms obtain kvs where m: "m = JObj kvs"
    by (auto simp: export_member_typed_def split: json.splits)
  have roles: "\<exists>rs. dict_get m ''adminRoles'' (JList []) = Inr (JList rs) \<and>
                    map (py_str repr) rs = roles_of m"
  proof (cases "map_of kvs ''adminRoles''")
    case None
    then show ?thesis using m by (simp add: dict_get_obj roles_of_def field_of_def)
  next
    case (Some v)
    with assms m obtain rs where v: "v = JList rs" "list_all is_str rs"
      by (auto simp: export_member_typed_def split: json.splits)
    with Some m show ?thesis by (simp add: dict_get_obj roles_of_def field_of_def join_str_of)
  qed
  then obtain rs where rs: "dict_get m ''adminRoles'' (JList []) = Inr (JList rs)"
    "map (py_str repr) rs = roles_of m" by blast
  have "member_row repr m =
      Inr [field_of m ''id'', field_of m ''active'', JStr (join '', '' (roles_of m)),
           field_of m ''email'',
           (case map_of kvs ''lastActivityAt'' of None \<Rightarrow> JStr ''N/A'' | Some v \<Rightarrow> v),
           field_of m ''license'',
           (case map_of kvs ''licenseAssignedAt'' of None \<Rightarrow> JStr ''N/A'' | Some v \<Rightarrow> v),
           field_of m ''role'', field_of m ''type'']"
    unfolding member_row_def rs using rs(2) m
    by (simp add: dict_get_field) (simp add: dict_get_obj)
  then show ?thesis
    using m by (simp add: member_cells_def default_cell_obj csv_field_str)
qed

lemma members_write_rows_typed:
  "list_all export_member_typed members \<Longrightarrow>
   members_write_rows repr members rows = (None, rows @ map (member_cells repr) members)"
proof (induction members arbitrary: rows)
  case Nil
  then show ?case by simp
next
  case (Cons m ms)
  then have t: "export_member_typed m" "list_all export_member_typed ms" by simp_all
  from member_row_typed [OF t(1), of repr] obtain row where
    "member_row repr m = Inr row" "map (csv_field repr) row = member_cells repr m" by blast
  then show ?case
    using Cons.IH [OF t(2), of "rows @ [member_cells repr m]"] by simp
qed

text \<open>
  C7. On typed records each exporter writes the header and then one row per record, in
  the record order, with the columns in the fixed order: for a board id, name, owner
  name, createdAt, modifiedAt, viewLink; for a member id, active, the admin roles joined
  by a comma and a space, email, lastActivityAt (\<^verbatim>\<open>N/A\<close> without the key), license,
  licenseAssignedAt (\<^verbatim>\<open>N/A\<close> without the key), role, type. A board without
  \<^verbatim>\<open>owner\<close> gets a row with an empty owner field and no exception.
\<close>

theorem export_rows:
  "(list_all board_typed boards \<longrightarrow>
      boards_export_to_csv repr boards = (None, boards_header # map (board_cells repr) boards))
   \<and> (list_all export_member_typed members \<longrightarrow>
      members_export_to_csv repr members =
        (None, members_fieldnames # map (member_cells repr) members))
   \<and> (map_of kvs ''owner'' = None \<longrightarrow>
      boards_export_to_csv repr [JObj kvs] =
        (None, [boards_header,
                [csv_field repr (field_of (JObj kvs) ''id''), csv_field repr (field_of (JObj kvs) ''name''),
                 [],
                 csv_field repr (field_of (JObj kvs) ''createdAt''),
                 csv_field repr (field_of (JObj kvs) ''modifiedAt''),
                 csv_field repr (field_of (JObj kvs) ''viewLink'')]]))"
proof -
  have boards: "boards_export_to_csv repr bs = (None, boards_header # map (board_cells repr) bs)"
    if "list_all board_typed bs" for bs
    using that by (simp add: boards_export_to_csv_def boards_write_rows_typed)
  have members: "members_export_to_csv repr members =
        (None, members_fieldnames # map (member_cells repr) members)"
    if "list_all export_member_typed members"
    using that by (simp add: members_export_to_csv_def members_write_rows_typed)
  have no_owner: "boards_export_to_csv repr [JObj kvs] =
        (None, [boards_header,
                [csv_field repr (field_of (JObj kvs) ''id''), csv_field repr (field_of (JObj kvs) ''name''),
                 [],
                 csv_field repr (field_of (JObj kvs) ''createdAt''),
                 csv_field repr (field_of (JObj kvs) ''modifiedAt''),
                 csv_field repr (field_of (JObj kvs) ''viewLink'')]])"
    if o: "map_of kvs ''owner'' = None"
  proof -
    from o have "list_all board_typed [JObj kvs]" by (simp add: board_typed_def)
    from boards [OF this] have
      "boards_export_to_csv repr [JObj kvs] = (None, [boards_header, board_cells repr (JObj kvs)])"
      by simp
    moreover have "field_of (field_of (JObj kvs) ''owner'') ''name'' = JNull"
      using o by (simp add: field_of_def)
    ultimately show ?thesis by (simp add: board_cells_def csv_field_null)
  qed
  from boards members no_owner show ?thesis by blast
qed

theorem export_rows_witness:
  "list_all board_typed [board1, board2]
   \<and> boards_export_to_csv plain_repr [board1, board2] =
       (None, [boards_header,
               [''b1'', ''Plan'', ''Ann'', ''2024-01-01'', ''2024-02-01'', ''https://miro.com/app/board/b1''],
               [''b2'', ''Draft'', [], [], [], []]])
   \<and> list_all export_member_typed [member1]
   \<and> members_export_to_csv plain_repr [member1] =
       (None, [members_fieldnames,
               [''m1'', ''True'', ''admin, billing'', ''a@x.org'', [], ''full'', ''N/A'', ''member'', ''user'']])
   \<and> map_of [(''id'', JStr ''b2''), (''name'', JStr ''Draft'')] ''owner'' = None
   \<and> boards_export_to_csv plain_repr [board2] = (None, [boards_header, [''b2'', ''Draft'', [], [], [], []]])"
proof -
  have b: "list_all board_typed [board1, board2]"
    by (simp add: board_typed_def board1_def board2_def)
  have m: "list_all export_member_typed [member1]"
    by (simp add: export_member_typed_def member1_def is_str_def)
  have o: "map_of [(''id'', JStr ''b2''), (''name'', JStr ''Draft'')] ''owner'' = None" by simp
  from b m o
    export_rows [of "[board1, board2]" plain_repr "[member1]" "[(''id'', JStr ''b2''), (''name'', JStr ''Draft'')]"]
  show ?thesis
    by (simp add: board_cells_def member_cells_def field_of_def csv_field_def py_str_def
        board1_def board2_def member1_def roles_of_def default_cell_def str_of_def)
qed

subsection \<open>One turn of each loop\<close>

lemma monitor_step:
  assumes "nt sent (cursor_request url headers cursor) = Inr r" "cursor_page r recs tok"
  shows "monitor_fetch_loop nt url headers members cursor sent =
           (if truthy tok
            then monitor_fetch_loop nt url headers (members @ recs) tok
                   (sent @ [cursor_request url headers cursor])
            else Some (Inr (members @ recs), sent @ [cursor_request url headers cursor]))"
  using assms
  by (subst monitor_fetch_loop.simps)
    (auto simp: cursor_request_def cursor_page_def Let_def raise_for_status_def list_extend_def
      split: option.splits)

lemma monitor_fail_status:
  assumes "nt sent (cursor_request url headers cursor) = Inr r"
    "400 \<le> status_code r" "status_code r < 600"
  shows "monitor_fetch_loop nt url headers members cursor sent =
           Some (Inl (HTTPError (status_code r)), sent @ [cursor_request url headers cursor])"
  using assms
  by (subst monitor_fetch_loop.simps)
    (simp add: cursor_request_def Let_def raise_for_status_def)

lemma monitor_fail_body:
  assumes "nt sent (cursor_request url headers cursor) = Inr r"
    "\<not> (400 \<le> status_code r \<and> status_code r < 600)" "body r = None"
  shows "monitor_fetch_loop nt url headers members cursor sent =
           Some (Inl JSONDecodeError, sent @ [cursor_request url headers cursor])"
  using assms
  by (subst monitor_fetch_loop.simps)
    (simp add: cursor_request_def Let_def raise_for_status_def)

lemma members_step:
  assumes "nt sent (cursor_request url headers cursor) = Inr r" "cursor_page r recs tok"
  shows "members_fetch_loop nt url headers members cursor sent =
           (if truthy tok
            then members_fetch_loop nt url headers (members @ recs) tok
                   (sent @ [cursor_request url headers cursor])
            else Some (Inr (members @ recs), sent @ [cursor_request url headers cursor]))"
  using assms
  by (subst members_fetch_loop.simps)
    (auto simp: cursor_request_def cursor_page_def Let_def list_extend_def split: option.splits)

lemma members_fail_status:
  assumes "nt sent (cursor_request url headers cursor) = Inr r" "status_code r \<noteq> 200"
  shows "members_fetch_loop nt url headers members cursor sent =
           Some (Inr members, sent @ [cursor_request url headers cursor])"
  using assms
  by (subst members_fetch_loop.simps) (simp add: cursor_request_def Let_def)

lemma members_fail_body:
  assumes "nt sent (cursor_request url headers cursor) = Inr r" "status_code r = 200"
    "body r = None"
  shows "members_fetch_loop nt url headers members cursor sent =
           Some (Inl JSONDecodeError, sent @ [cursor_request url headers cursor])"
  using assms
  by (subst members_fetch_loop.simps) (simp add: cursor_request_def Let_def)

lemma boards_step:
  assumes "truthy url" "nt sent (link_request headers params url) = Inr r" "link_page r recs tok"
  shows "boards_fetch_loop nt headers params boards url sent =
           (if truthy tok
            then boards_fetch_loop nt headers params (boards @ recs) tok
                   (sent @ [link_request headers params url])
            else Some (Inr (boards @ recs), sent @ [link_request headers params url]))"
  using assms
  by (subst boards_fetch_loop.simps)
    (auto simp: link_request_def link_page_def Let_def list_extend_def
      split: option.splits sum.splits)

lemma boards_fail:
  assumes "truthy url" "nt sent (link_request headers params url) = Inr r"
    "status_code r \<noteq> 200 \<or> body r = None"
  shows "boards_fetch_loop nt headers params boards url sent =
           Some (Inr boards, sent @ [link_request headers params url])"
  using assms
  by (subst boards_fetch_loop.simps) (auto simp: link_request_def Let_def)

subsection \<open>Many turns\<close>

lemma last_token_Cons: "last_token cursor (p # ps) = last_token (snd p) ps"
  by (simp add: last_token_def)

lemma cursor_unroll:
  assumes step: "\<And>members cursor sent r recs tok.
      nt sent (cursor_request url headers cursor) = Inr r \<Longrightarrow> cursor_page r recs tok \<Longrightarrow>
      L members cursor sent =
        (if truthy tok then L (members @ recs) tok (sent @ [cursor_request url headers cursor])
         else Some (Inr (members @ recs), sent @ [cursor_request url headers cursor]))"
  shows "cursor_served nt url headers sent cursor ps \<Longrightarrow> list_all has_token ps \<Longrightarrow>
         L members cursor sent =
         L (members @ concat (map fst ps)) (last_token cursor ps)
           (sent @ cursor_requests url headers cursor ps)"
proof (induction ps arbitrary: members cursor sent)
  case Nil
  then show ?case by (simp add: last_token_def)
next
  case (Cons p ps)
  let ?req = "cursor_request url headers cursor"
  from Cons.prems obtain r where
    r: "nt sent ?req = Inr r" "cursor_page r (fst p) (snd p)"
    and rest: "cursor_served nt url headers (sent @ [?req]) (snd p) ps"
    by (auto split: sum.splits)
  from Cons.prems have "has_token p" and t2: "list_all has_token ps" by simp_all
  then have t: "truthy (snd p)" "list_all has_token ps" by (simp_all add: has_token_def)
  have "L members cursor sent = L (members @ fst p) (snd p) (sent @ [?req])"
    using step [of sent cursor r "fst p" "snd p" members] r t by simp
  also have "\<dots> = L ((members @ fst p) @ concat (map fst ps)) (last_token (snd p) ps)
     ((sent @ [?req]) @ cursor_requests url headers (snd p) ps)"
    by (rule Cons.IH [OF rest t(2)])
  finally show ?case by (simp add: last_token_Cons)
qed

lemma cursor_complete:
  assumes step: "\<And>members cursor sent r recs tok.
      nt sent (cursor_request url headers cursor) = Inr r \<Longrightarrow> cursor_page r recs tok \<Longrightarrow>
      L members cursor sent =
        (if truthy tok then L (members @ recs) tok (sent @ [cursor_request url headers cursor])
         else Some (Inr (members @ recs), sent @ [cursor_request url headers cursor]))"
  shows "cursor_served nt url headers sent cursor ps \<Longrightarrow> complete_pages ps \<Longrightarrow>
         L members cursor sent =
         Some (Inr (members @ concat (map fst ps)), sent @ cursor_requests url headers cursor ps)"
proof (induction ps arbitrary: members cursor sent)
  case Nil
  then show ?case by simp
next
  case (Cons p ps)
  let ?req = "cursor_request url headers cursor"
  from Cons.prems obtain r where
    r: "nt sent ?req = Inr r" "cursor_page r (fst p) (snd p)"
    and rest: "cursor_served nt url headers (sent @ [?req]) (snd p) ps"
    by (auto split: sum.splits)
  note one = step [of sent cursor r "fst p" "snd p" members, OF r]
  show ?case
  proof (cases ps)
    case Nil
    with Cons.prems have "\<not> truthy (snd p)" by (simp add: has_token_def)
    with one Nil show ?thesis by simp
  next
    case (Cons q qs)
    with Cons.prems have t: "truthy (snd p)" "complete_pages ps" by (simp_all add: has_token_def)
    from one t have "L members cursor sent = L (members @ fst p) (snd p) (sent @ [?req])" by simp
    also have "\<dots> = Some (Inr ((members @ fst p) @ concat (map fst ps)),
        (sent @ [?req]) @ cursor_requests url headers (snd p) ps)"
      by (rule Cons.IH [OF rest t(2)])
    finally show ?thesis by simp
  qed
qed

lemma link_unroll:
  assumes step: "\<And>boards url sent r recs tok.
      truthy url \<Longrightarrow> nt sent (link_request headers params url) = Inr r \<Longrightarrow> link_page r recs tok \<Longrightarrow>
      L boards url sent =
        (if truthy tok then L (boards @ recs) tok (sent @ [link_request headers params url])
         else Some (Inr (boards @ recs), sent @ [link_request headers params url]))"
  shows "link_served nt headers params sent url ps \<Longrightarrow> list_all has_token ps \<Longrightarrow> truthy url \<Longrightarrow>
         L boards url sent =
         L (boards @ concat (map fst ps)) (last_token url ps)
           (sent @ link_requests headers params url ps)"
proof (induction ps arbitrary: boards url sent)
  case Nil
  then show ?case by (simp add: last_token_def)
next
  case (Cons p ps)
  let ?req = "link_request headers params url"
  from Cons.prems obtain r where
    r: "nt sent ?req = Inr r" "link_page r (fst p) (snd p)"
    and rest: "link_served nt headers params (sent @ [?req]) (snd p) ps"
    by (auto split: sum.splits)
  from Cons.prems have "has_token p" and t2: "list_all has_token ps" by simp_all
  then have t: "truthy (snd p)" "list_all has_token ps" by (simp_all add: has_token_def)
  have "L boards url sent = L (boards @ fst p) (snd p) (sent @ [?req])"
    using step [of url sent r "fst p" "snd p" boards] r t Cons.prems(3) by simp
  also have "\<dots> = L ((boards @ fst p) @ concat (map fst ps)) (last_token (snd p) ps)
     ((sent @ [?req]) @ link_requests headers params (snd p) ps)"
    by (rule Cons.IH [OF rest t(2) t(1)])
  finally show ?case by (simp add: last_token_Cons)
qed

lemma link_complete:
  assumes step: "\<And>boards url sent r recs tok.
      truthy url \<Longrightarrow> nt sent (link_request headers params url) = Inr r \<Longrightarrow> link_page r recs tok \<Longrightarrow>
      L boards url sent =
        (if truthy tok then L (boards @ recs) tok (sent @ [link_request headers params url])
         else Some (Inr (boards @ recs), sent @ [link_request headers params url]))"
  shows "link_served nt headers params sent url ps \<Longrightarrow> complete_pages ps \<Longrightarrow> truthy url \<Longrightarrow>
         L boards url sent =
         Some (Inr (boards @ concat (map fst ps)), sent @ link_requests headers params url ps)"
proof (induction ps arbitrary: boards url sent)
  case Nil
  then show ?case by simp
next
  case (Cons p ps)
  let ?req = "link_request headers params url"
  from Cons.prems obtain r where
    r: "nt sent ?req = Inr r" "link_page r (fst p) (snd p)"
    and rest: "link_served nt headers params (sent @ [?req]) (snd p) ps"
    by (auto split: sum.splits)
  note one = step [of url sent r "fst p" "snd p" boards, OF Cons.prems(3) r]
  show ?case
  proof (cases ps)
    case Nil
    with Cons.prems have "\<not> truthy (snd p)" by (simp add: has_token_def)
    with one Nil show ?thesis by simp
  next
    case (Cons q qs)
    with Cons.prems have t: "truthy (snd p)" "complete_pages ps" by (simp_all add: has_token_def)
    from one t have "L boards url sent = L (boards @ fst p) (snd p) (sent @ [?req])" by simp
    also have "\<dots> = Some (Inr ((boards @ fst p) @ concat (map fst ps)),
        (sent @ [?req]) @ link_requests headers params (snd p) ps)"
      by (rule Cons.IH [OF rest t(2) t(1)])
    finally show ?thesis by simp
  qed
qed

lemma length_cursor_requests: "length (cursor_requests url headers cursor ps) = length ps"
  by (induction ps arbitrary: cursor) simp_all

lemma length_link_requests: "length (link_requests headers params url ps) = length ps"
  by (induction ps arbitrary: url) simp_all

subsection \<open>Complete page sequences\<close>

lemma truthy_boards_url: "truthy (JStr boards_url)"
  by (simp add: boards_url_def)

text \<open>
  C2. When the requests of a fetch are answered by the pages \<open>P1 .. Pn\<close>, each page
  but the last carrying a token and the request made with it being answered by the next
  page, and the last page carrying none, then the fetch returns the records of the pages
  concatenated in page order and sends exactly \<open>n\<close> requests. This holds for the
  monitor's and the members export's \<^verbatim>\<open>fetch_members\<close> (cursor style) and for
  \<^verbatim>\<open>fetch_boards\<close> (link style); \<open>n = 1\<close> is the single page without a token.
\<close>

theorem fetch_all_pages:
  "(cursor_served nt (members_url org_id) (members_headers api_token) sent JNull pages
      \<and> complete_pages pages \<longrightarrow>
      monitor_fetch_members nt sent api_token org_id =
        Some (Inr (concat (map fst pages)),
              sent @ cursor_requests (members_url org_id) (members_headers api_token) JNull pages)
      \<and> length (cursor_requests (members_url org_id) (members_headers api_token) JNull pages)
          = length pages)
   \<and> (cursor_served nt (members_url (strip line)) (members_headers api_token) sent JNull pages
      \<and> complete_pages pages \<longrightarrow>
      members_fetch_members nt sent (line # stdin) api_token =
        Some (Inr (concat (map fst pages)),
              sent @ cursor_requests (members_url (strip line)) (members_headers api_token) JNull pages)
      \<and> length (cursor_requests (members_url (strip line)) (members_headers api_token) JNull pages)
          = length pages)
   \<and> (link_served nt (boards_headers api_token) boards_params sent (JStr boards_url) pages
      \<and> complete_pages pages \<longrightarrow>
      boards_fetch_boards nt sent api_token =
        Some (Inr (concat (map fst pages)),
              sent @ link_requests (boards_headers api_token) boards_params (JStr boards_url) pages)
      \<and> length (link_requests (boards_headers api_token) boards_params (JStr boards_url) pages)
          = length pages)"
proof -
  have monitor: "monitor_fetch_loop nt url headers [] JNull sent =
      Some (Inr (concat (map fst pages)), sent @ cursor_requests url headers JNull pages)"
    if "cursor_served nt url headers sent JNull pages" "complete_pages pages" for url headers
    using cursor_complete [of nt url headers "monitor_fetch_loop nt url headers" sent JNull pages "[]",
        OF monitor_step that]
    by simp
  have members: "members_fetch_loop nt url headers [] JNull sent =
      Some (Inr (concat (map fst pages)), sent @ cursor_requests url headers JNull pages)"
    if "cursor_served nt url headers sent JNull pages" "complete_pages pages" for url headers
    using cursor_complete [of nt url headers "members_fetch_loop nt url headers" sent JNull pages "[]",
        OF members_step that]
    by simp
  have boards: "boards_fetch_loop nt headers params [] (JStr boards_url) sent =
      Some (Inr (concat (map fst pages)), sent @ link_requests headers params (JStr boards_url) pages)"
    if "link_served nt headers params sent (JStr boards_url) pages" "complete_pages pages"
    for headers params
    using link_complete [of nt headers params "boards_fetch_loop nt headers params" sent
        "JStr boards_url" pages "[]", OF boards_step that truthy_boards_url]
    by simp
  show ?thesis
    using monitor members boards
    by (simp add: monitor_fetch_members_def members_fetch_members_def boards_fetch_boards_def
        length_cursor_requests length_link_requests)
qed


lemma scripted_at: "length sent < length rs \<Longrightarrow> scripted rs sent req = Inr (rs ! length sent)"
  by (simp add: scripted_def)

lemma cursor_page_ok: "cursor_page (ok_page recs cursor next_link) recs cursor"
  by (simp add: cursor_page_def ok_page_def dict_get_obj)

lemma cursor_page_last: "cursor_page (last_page recs) recs JNull"
  by (simp add: cursor_page_def last_page_def dict_get_obj)

lemma link_page_ok: "link_page (ok_page recs cursor next_link) recs next_link"
  by (simp add: link_page_def ok_page_def dict_get_obj)

lemma link_page_last: "link_page (last_page recs) recs JNull"
  by (simp add: link_page_def last_page_def dict_get_obj)

lemma cursor_served_three:
  "cursor_served (scripted three_pages) url headers [] JNull cursor_pages3"
  by (simp add: three_pages_def cursor_pages3_def scripted_at cursor_page_ok cursor_page_last)

lemma link_served_three:
  "link_served (scripted three_pages) headers params [] url link_pages3"
  by (simp add: three_pages_def link_pages3_def scripted_at link_page_ok link_page_last)

theorem fetch_all_pages_witness:
  "cursor_served (scripted three_pages) (members_url ''org1'') (members_headers ''tok'') [] JNull cursor_pages3
   \<and> complete_pages cursor_pages3
   \<and> monitor_fetch_members (scripted three_pages) [] ''tok'' ''org1'' =
       Some (Inr [member ''m1'' True ''full'', member ''m2'' False ''full'', member ''m3'' True ''basic''],
             [Get (JStr (members_url ''org1'')) (members_headers ''tok'') [],
              Get (JStr (members_url ''org1'')) (members_headers ''tok'') [(''cursor'', JStr ''c2'')],
              Get (JStr (members_url ''org1'')) (members_headers ''tok'') [(''cursor'', JStr ''c3'')]])
   \<and> members_fetch_members (scripted three_pages) [] ['' org1 ''] ''tok'' =
       Some (Inr [member ''m1'' True ''full'', member ''m2'' False ''full'', member ''m3'' True ''basic''],
             [Get (JStr (members_url ''org1'')) (members_headers ''tok'') [],
              Get (JStr (members_url ''org1'')) (members_headers ''tok'') [(''cursor'', JStr ''c2'')],
              Get (JStr (members_url ''org1'')) (members_headers ''tok'') [(''cursor'', JStr ''c3'')]])
   \<and> link_served (scripted three_pages) (boards_headers ''tok'') boards_params [] (JStr boards_url) link_pages3
   \<and> complete_pages link_pages3
   \<and> boards_fetch_boards (scripted three_pages) [] ''tok'' =
       Some (Inr [member ''m1'' True ''full'', member ''m2'' False ''full'', member ''m3'' True ''basic''],
             [Get (JStr boards_url) (boards_headers ''tok'') boards_params,
              Get (JStr ''https://api.miro.com/v2/boards?cursor=c2'') (boards_headers ''tok'') boards_params,
              Get (JStr ''https://api.miro.com/v2/boards?cursor=c3'') (boards_headers ''tok'') boards_params])"
proof -
  have s: "strip '' org1 '' = ''org1''" by (simp add: strip_def is_space_def)
  have c: "complete_pages cursor_pages3" by (simp add: cursor_pages3_def has_token_def)
  have l: "complete_pages link_pages3" by (simp add: link_pages3_def has_token_def)
  have rc: "cursor_requests url headers JNull cursor_pages3 =
      [Get (JStr url) headers [], Get (JStr url) headers [(''cursor'', JStr ''c2'')],
       Get (JStr url) headers [(''cursor'', JStr ''c3'')]]" for url headers
    by (simp add: cursor_pages3_def cursor_request_def cursor_params_def)
  have rl: "link_requests headers params (JStr boards_url) link_pages3 =
      [Get (JStr boards_url) headers params,
       Get (JStr ''https://api.miro.com/v2/boards?cursor=c2'') headers params,
       Get (JStr ''https://api.miro.com/v2/boards?cursor=c3'') headers params]" for headers params
    by (simp add: link_pages3_def link_request_def)
  have cc: "concat (map fst cursor_pages3) =
      [member ''m1'' True ''full'', member ''m2'' False ''full'', member ''m3'' True ''basic'']"
    by (simp add: cursor_pages3_def)
  have cl: "concat (map fst link_pages3) =
      [member ''m1'' True ''full'', member ''m2'' False ''full'', member ''m3'' True ''basic'']"
    by (simp add: link_pages3_def)
  from fetch_all_pages [of "scripted three_pages" "''org1''" "''tok''" "[]" cursor_pages3 "'' org1 ''" "[]"]
    fetch_all_pages [of "scripted three_pages" "''org1''" "''tok''" "[]" link_pages3 "'' org1 ''" "[]"]
    cursor_served_three link_served_three c l
  show ?thesis
    by (simp add: s rc rl cc cl)
qed

subsection \<open>A failure after some pages\<close>

text \<open>
  C4, as the code has it. Let the pages \<open>1 .. k-1\<close> be served, each with a token, and
  let \<open>r\<close> answer the \<open>k\<close>-th request. \<^verbatim>\<open>fetch_boards\<close> returns the records of the
  pages \<open>1 .. k-1\<close> when the status of \<open>r\<close> is not 200 or its body does not parse. The
  members export's \<^verbatim>\<open>fetch_members\<close> returns them when the status is not 200, and
  raises \<^verbatim>\<open>JSONDecodeError\<close> when the status is 200 and the body does not parse. The
  monitor's \<^verbatim>\<open>fetch_members\<close> returns no records: it raises \<^verbatim>\<open>HTTPError\<close> on a
  status from 400 to 599, and \<^verbatim>\<open>JSONDecodeError\<close> on any other status with a body
  that does not parse.
\<close>

theorem partial_failure:
  "(let H = boards_headers api_token; P = boards_params; U = JStr boards_url;
        sent' = sent @ link_requests H P U pages; req = link_request H P (last_token U pages) in
      link_served nt H P sent U pages \<and> list_all has_token pages \<and> nt sent' req = Inr r
        \<and> (status_code r \<noteq> 200 \<or> body r = None) \<longrightarrow>
      boards_fetch_boards nt sent api_token = Some (Inr (concat (map fst pages)), sent' @ [req]))
   \<and> (let H = members_headers api_token; U = members_url (strip line);
        sent' = sent @ cursor_requests U H JNull pages; req = cursor_request U H (last_token JNull pages) in
      cursor_served nt U H sent JNull pages \<and> list_all has_token pages \<and> nt sent' req = Inr r
        \<and> status_code r \<noteq> 200 \<longrightarrow>
      members_fetch_members nt sent (line # stdin) api_token =
        Some (Inr (concat (map fst pages)), sent' @ [req]))
   \<and> (let H = members_headers api_token; U = members_url (strip line);
        sent' = sent @ cursor_requests U H JNull pages; req = cursor_request U H (last_token JNull pages) in
      cursor_served nt U H sent JNull pages \<and> list_all has_token pages \<and> nt sent' req = Inr r
        \<and> status_code r = 200 \<and> body r = None \<longrightarrow>
      members_fetch_members nt sent (line # stdin) api_token = Some (Inl JSONDecodeError, sent' @ [req]))
   \<and> (let H = members_headers api_token; U = members_url org_id;
        sent' = sent @ cursor_requests U H JNull pages; req = cursor_request U H (last_token JNull pages) in
      cursor_served nt U H sent JNull pages \<and> list_all has_token pages \<and> nt sent' req = Inr r
        \<and> 400 \<le> status_code r \<and> status_code r < 600 \<longrightarrow>
      monitor_fetch_members nt sent api_token org_id =
        Some (Inl (HTTPError (status_code r)), sent' @ [req]))
   \<and> (let H = members_headers api_token; U = members_url org_id;
        sent' = sent @ cursor_requests U H JNull pages; req = cursor_request U H (last_token JNull pages) in
      cursor_served nt U H sent JNull pages \<and> list_all has_token pages \<and> nt sent' req = Inr r
        \<and> \<not> (400 \<le> status_code r \<and> status_code r < 600) \<and> body r = None \<longrightarrow>
      monitor_fetch_members nt sent api_token org_id = Some (Inl JSONDecodeError, sent' @ [req]))"
proof -
  have last_truthy: "truthy (last_token U ps)" if "truthy U" "list_all has_token ps" for U ps
    using that by (cases ps rule: rev_cases) (simp_all add: last_token_def has_token_def)
  have boards: "boards_fetch_loop nt H P [] U sent = Some (Inr (concat (map fst pages)),
        (sent @ link_requests H P U pages) @ [link_request H P (last_token U pages)])"
    if "link_served nt H P sent U pages" "list_all has_token pages" "truthy U"
      "nt (sent @ link_requests H P U pages) (link_request H P (last_token U pages)) = Inr r"
      "status_code r \<noteq> 200 \<or> body r = None" for H P U
    using link_unroll [of nt H P "boards_fetch_loop nt H P" sent U pages "[]",
        OF boards_step that(1,2,3)]
      boards_fail [of "last_token U pages" nt "sent @ link_requests H P U pages" H P r
        "concat (map fst pages)", OF last_truthy [OF that(3,2)] that(4,5)]
    by simp
  have members: "members_fetch_loop nt U H [] JNull sent =
        members_fetch_loop nt U H (concat (map fst pages)) (last_token JNull pages)
          (sent @ cursor_requests U H JNull pages)"
    if "cursor_served nt U H sent JNull pages" "list_all has_token pages" for U H
    using cursor_unroll [of nt U H "members_fetch_loop nt U H" sent JNull pages "[]",
        OF members_step that]
    by simp
  have monitor: "monitor_fetch_loop nt U H [] JNull sent =
        monitor_fetch_loop nt U H (concat (map fst pages)) (last_token JNull pages)
          (sent @ cursor_requests U H JNull pages)"
    if "cursor_served nt U H sent JNull pages" "list_all has_token pages" for U H
    using cursor_unroll [of nt U H "monitor_fetch_loop nt U H" sent JNull pages "[]",
        OF monitor_step that]
    by simp
  have c1: "boards_fetch_boards nt sent api_token = Some (Inr (concat (map fst pages)),
        (sent @ link_requests H P U pages) @ [link_request H P (last_token U pages)])"
    if "H = boards_headers api_token" "P = boards_params" "U = JStr boards_url"
      "link_served nt H P sent U pages" "list_all has_token pages"
      "nt (sent @ link_requests H P U pages) (link_request H P (last_token U pages)) = Inr r"
      "status_code r \<noteq> 200 \<or> body r = None" for H P U
  proof -
    from that(3) have "truthy U" by (simp add: boards_url_def)
    from boards [OF that(4,5) this that(6,7)] that(1,2,3) show ?thesis
      by (simp add: boards_fetch_boards_def)
  qed
  have c2: "members_fetch_members nt sent (line # stdin) api_token =
        Some (Inr (concat (map fst pages)),
          (sent @ cursor_requests U H JNull pages) @ [cursor_request U H (last_token JNull pages)])"
    if "H = members_headers api_token" "U = members_url (strip line)"
      "cursor_served nt U H sent JNull pages" "list_all has_token pages"
      "nt (sent @ cursor_requests U H JNull pages) (cursor_request U H (last_token JNull pages)) = Inr r"
      "status_code r \<noteq> 200" for H U
    using members [OF that(3,4)] that(1,2)
      members_fail_status [of nt "sent @ cursor_requests U H JNull pages" U H
        "last_token JNull pages" r "concat (map fst pages)", OF that(5,6)]
    by (simp add: members_fetch_members_def)
  have c3: "members_fetch_members nt sent (line # stdin) api_token =
        Some (Inl JSONDecodeError,
          (sent @ cursor_requests U H JNull pages) @ [cursor_request U H (last_token JNull pages)])"
    if "H = members_headers api_token" "U = members_url (strip line)"
      "cursor_served nt U H sent JNull pages" "list_all has_token pages"
      "nt (sent @ cursor_requests U H JNull pages) (cursor_request U H (last_token JNull pages)) = Inr r"
      "status_code r = 200" "body r = None" for H U
    using members [OF that(3,4)] that(1,2)
      members_fail_body [of nt "sent @ cursor_requests U H JNull pages" U H
        "last_token JNull pages" r "concat (map fst pages)", OF that(5,6,7)]
    by (simp add: members_fetch_members_def)
  have c4: "monitor_fetch_members nt sent api_token org_id =
        Some (Inl (HTTPError (status_code r)),
          (sent @ cursor_requests U H JNull pages) @ [cursor_request U H (last_token JNull pages)])"
    if "H = members_headers api_token" "U = members_url org_id"
      "cursor_served nt U H sent JNull pages" "list_all has_token pages"
      "nt (sent @ cursor_requests U H JNull pages) (cursor_request U H (last_token JNull pages)) = Inr r"
      "400 \<le> status_code r" "status_code r < 600" for H U
    using monitor [OF that(3,4)] that(1,2)
      monitor_fail_status [of nt "sent @ cursor_requests U H JNull pages" U H
        "last_token JNull pages" r "concat (map fst pages)", OF that(5,6,7)]
    by (simp add: monitor_fetch_members_def)
  have c5: "monitor_fetch_members nt sent api_token org_id =
        Some (Inl JSONDecodeError,
          (sent @ cursor_requests U H JNull pages) @ [cursor_request U H (last_token JNull pages)])"
    if "H = members_headers api_token" "U = members_url org_id"
      "cursor_served nt U H sent JNull pages" "list_all has_token pages"
      "nt (sent @ cursor_requests U H JNull pages) (cursor_request U H (last_token JNull pages)) = Inr r"
      "\<not> (400 \<le> status_code r \<and> status_code r < 600)" "body r = None" for H U
    using monitor [OF that(3,4)] that(1,2)
      monitor_fail_body [of nt "sent @ cursor_requests U H JNull pages" U H
        "last_token JNull pages" r "concat (map fst pages)", OF that(5,6,7)]
    by (simp add: monitor_fetch_members_def)
  show ?thesis
    unfolding Let_def
    apply (intro conjI impI)
    subgoal by (rule c1) auto
    subgoal by (rule c2) auto
    subgoal by (rule c3) auto
    subgoal by (rule c4) auto
    subgoal by (rule c5) auto
    done
qed


lemma scripted_second:
  "scripted [r1, r2] [q] req = Inr r2"
  by (simp add: scripted_def)

theorem partial_failure_witness:
  "boards_fetch_boards (scripted page_then_error) [] ''tok'' =
     Some (Inr [member ''m1'' True ''full''],
           [Get (JStr boards_url) (boards_headers ''tok'') boards_params,
            Get (JStr ''https://api.miro.com/v2/boards?cursor=c2'') (boards_headers ''tok'') boards_params])
   \<and> members_fetch_members (scripted page_then_error) [] [''org1''] ''tok'' =
     Some (Inr [member ''m1'' True ''full''],
           [Get (JStr (members_url ''org1'')) (members_headers ''tok'') [],
            Get (JStr (members_url ''org1'')) (members_headers ''tok'') [(''cursor'', JStr ''c2'')]])
   \<and> members_fetch_members (scripted page_then_garbled) [] [''org1''] ''tok'' =
     Some (Inl JSONDecodeError,
           [Get (JStr (members_url ''org1'')) (members_headers ''tok'') [],
            Get (JStr (members_url ''org1'')) (members_headers ''tok'') [(''cursor'', JStr ''c2'')]])
   \<and> monitor_fetch_members (scripted page_then_error) [] ''tok'' ''org1'' =
     Some (Inl (HTTPError 500),
           [Get (JStr (members_url ''org1'')) (members_headers ''tok'') [],
            Get (JStr (members_url ''org1'')) (members_headers ''tok'') [(''cursor'', JStr ''c2'')]])
   \<and> monitor_fetch_members (scripted page_then_garbled) [] ''tok'' ''org1'' =
     Some (Inl JSONDecodeError,
           [Get (JStr (members_url ''org1'')) (members_headers ''tok'') [],
            Get (JStr (members_url ''org1'')) (members_headers ''tok'') [(''cursor'', JStr ''c2'')]])"
proof -
  let ?m = "member ''m1'' True ''full''"
  let ?cp = "[([?m], JStr ''c2'')]"
  let ?lp = "[([?m], JStr ''https://api.miro.com/v2/boards?cursor=c2'')]"
  have s: "strip ''org1'' = ''org1''" by (simp add: strip_def is_space_def)
  have ce: "cursor_served (scripted page_then_error) U H [] JNull ?cp" for U H
    by (simp add: page_then_error_def scripted_at cursor_page_ok)
  have cg: "cursor_served (scripted page_then_garbled) U H [] JNull ?cp" for U H
    by (simp add: page_then_garbled_def scripted_at cursor_page_ok)
  have le: "link_served (scripted page_then_error) H P [] U ?lp" for U H P
    by (simp add: page_then_error_def scripted_at link_page_ok)
  have t: "list_all has_token ?cp" "list_all has_token ?lp" by (simp_all add: has_token_def)
  have e2: "scripted page_then_error [q] req = Inr server_error" for q req
    by (simp add: page_then_error_def scripted_second)
  have g2: "scripted page_then_garbled [q] req = Inr garbled" for q req
    by (simp add: page_then_garbled_def scripted_second)
  have st: "status_code server_error = 500" "body server_error = None"
    "status_code garbled = 200" "body garbled = None"
    by (simp_all add: server_error_def garbled_def)
  note th = partial_failure [unfolded Let_def]
  have b: "boards_fetch_boards (scripted page_then_error) [] ''tok'' =
     Some (Inr [?m],
           [Get (JStr boards_url) (boards_headers ''tok'') boards_params,
            Get (JStr ''https://api.miro.com/v2/boards?cursor=c2'') (boards_headers ''tok'') boards_params])"
    using th [where api_token = "''tok''" and sent = "[]" and pages = ?lp
        and nt = "scripted page_then_error" and r = server_error]
      le t e2 st by (simp add: link_request_def last_token_def)
  have m1: "members_fetch_members (scripted page_then_error) [] [''org1''] ''tok'' =
     Some (Inr [?m],
           [Get (JStr (members_url ''org1'')) (members_headers ''tok'') [],
            Get (JStr (members_url ''org1'')) (members_headers ''tok'') [(''cursor'', JStr ''c2'')]])"
    using th [where api_token = "''tok''" and sent = "[]" and pages = ?cp
        and nt = "scripted page_then_error" and r = server_error and line = "''org1''" and stdin = "[]"]
      ce t e2 st by (simp add: cursor_request_def cursor_params_def last_token_def s)
  have m2: "members_fetch_members (scripted page_then_garbled) [] [''org1''] ''tok'' =
     Some (Inl JSONDecodeError,
           [Get (JStr (members_url ''org1'')) (members_headers ''tok'') [],
            Get (JStr (members_url ''org1'')) (members_headers ''tok'') [(''cursor'', JStr ''c2'')]])"
    using th [where api_token = "''tok''" and sent = "[]" and pages = ?cp
        and nt = "scripted page_then_garbled" and r = garbled and line = "''org1''" and stdin = "[]"]
      cg t g2 st by (simp add: cursor_request_def cursor_params_def last_token_def s)
  have o1: "monitor_fetch_members (scripted page_then_error) [] ''tok'' ''org1'' =
     Some (Inl (HTTPError 500),
           [Get (JStr (members_url ''org1'')) (members_headers ''tok'') [],
            Get (JStr (members_url ''org1'')) (members_headers ''tok'') [(''cursor'', JStr ''c2'')]])"
    using th [where api_token = "''tok''" and sent = "[]" and pages = ?cp
        and nt = "scripted page_then_error" and r = server_error and org_id = "''org1''"]
      ce t e2 st by (simp add: cursor_request_def cursor_params_def last_token_def)
  have o2: "monitor_fetch_members (scripted page_then_garbled) [] ''tok'' ''org1'' =
     Some (Inl JSONDecodeError,
           [Get (JStr (members_url ''org1'')) (members_headers ''tok'') [],
            Get (JStr (members_url ''org1'')) (members_headers ''tok'') [(''cursor'', JStr ''c2'')]])"
    using th [where api_token = "''tok''" and sent = "[]" and pages = ?cp
        and nt = "scripted page_then_garbled" and r = garbled and org_id = "''org1''"]
      cg t g2 st by (simp add: cursor_request_def cursor_params_def last_token_def)
  from b m1 m2 o1 o2 show ?thesis by simp
qed

text \<open>
  Against C4 as stated: the second page of the members export arrives with status 200
  and a body that does not parse; the function raises instead of returning the member
  of the first page.
\<close>

theorem export_raises_on_garbled_page:
  "members_fetch_members (scripted page_then_garbled) [] [''org1''] ''tok'' =
     Some (Inl JSONDecodeError,
           [Get (JStr (members_url ''org1'')) (members_headers ''tok'') [],
            Get (JStr (members_url ''org1'')) (members_headers ''tok'') [(''cursor'', JStr ''c2'')]])"
proof -
  let ?U = "members_url ''org1''" and ?H = "members_headers ''tok''"
  have s: "strip ''org1'' = ''org1''" by (simp add: strip_def is_space_def)
  have 1: "scripted page_then_garbled [] (cursor_request ?U ?H JNull) =
      Inr (ok_page [member ''m1'' True ''full''] (JStr ''c2'') (JStr ''https://api.miro.com/v2/boards?cursor=c2''))"
    by (simp add: page_then_garbled_def scripted_def)
  have 2: "scripted page_then_garbled ([] @ [cursor_request ?U ?H JNull]) (cursor_request ?U ?H (JStr ''c2'')) = Inr garbled"
    by (simp add: page_then_garbled_def scripted_def)
  have "members_fetch_loop (scripted page_then_garbled) ?U ?H [] JNull [] =
      members_fetch_loop (scripted page_then_garbled) ?U ?H ([] @ [member ''m1'' True ''full'']) (JStr ''c2'')
        ([] @ [cursor_request ?U ?H JNull])"
    using members_step [where nt = "scripted page_then_garbled" and sent = "[]" and url = ?U
        and headers = ?H and cursor = JNull and members = "[]", OF 1 cursor_page_ok] by simp
  also have "\<dots> = Some (Inl JSONDecodeError, ([] @ [cursor_request ?U ?H JNull]) @ [cursor_request ?U ?H (JStr ''c2'')])"
    by (rule members_fail_body [where nt = "scripted page_then_garbled" and r = garbled, OF 2])
      (simp_all add: garbled_def)
  finally show ?thesis
    by (simp add: members_fetch_members_def s cursor_request_def cursor_params_def)
qed

subsection \<open>Loops that never end\<close>

lemma monitor_never_returns:
  assumes closed: "\<And>c sent. c \<in> S \<Longrightarrow>
      \<exists>r recs tok. nt sent (cursor_request url headers c) = Inr r \<and> cursor_page r recs tok \<and>
        truthy tok \<and> tok \<in> S"
    and c: "cursor \<in> S"
  shows "monitor_fetch_loop nt url headers members cursor sent = None"
proof (rule ccontr)
  assume "monitor_fetch_loop nt url headers members cursor sent \<noteq> None"
  then obtain y where y: "monitor_fetch_loop nt url headers members cursor sent = Some y" by blast
  have "\<not> (nt = nt \<and> url = url \<and> headers = headers \<and> cursor \<in> S)"
  proof (rule monitor_fetch_loop.raw_induct
      [where P = "\<lambda>nt' url' headers' members cursor sent y.
          \<not> (nt' = nt \<and> url' = url \<and> headers' = headers \<and> cursor \<in> S)", OF _ y], goal_cases)
    case (1 loop nt' url' headers' members cursor sent y)
    show ?case
    proof
      assume a: "nt' = nt \<and> url' = url \<and> headers' = headers \<and> cursor \<in> S"
      with closed [of cursor sent] obtain r recs tok where
        r: "nt sent (cursor_request url headers cursor) = Inr r" "cursor_page r recs tok"
        "truthy tok" "tok \<in> S" by blast
      from "1"(2) a r(1,2,3)
      have "loop nt url headers (members @ recs) tok (sent @ [cursor_request url headers cursor]) = Some y"
        by (auto simp: cursor_request_def cursor_page_def Let_def raise_for_status_def
            list_extend_def split: option.splits)
      from "1"(1) [OF this] r(4) show False by simp
    qed
  qed
  with c show False by simp
qed

lemma served_by_request:
  assumes "cursor_served (\<lambda>sent. srv) url headers sent cursor ps"
    "c \<in> set (cursor # map snd (butlast ps))" "ps \<noteq> []"
  shows "\<exists>r p. srv (cursor_request url headers c) = Inr r \<and> cursor_page r (fst p) (snd p) \<and>
           p \<in> set ps \<and> (snd p \<in> set (map snd (butlast ps)) \<or> p = last ps)"
  using assms
proof (induction ps arbitrary: cursor sent)
  case Nil
  then show ?case by simp
next
  case (Cons p ps)
  from Cons.prems(1) obtain r where
    r: "srv (cursor_request url headers cursor) = Inr r" "cursor_page r (fst p) (snd p)"
    and rest: "cursor_served (\<lambda>sent. srv) url headers (sent @ [cursor_request url headers cursor]) (snd p) ps"
    by (auto split: sum.splits)
  show ?case
  proof (cases "c = cursor")
    case True
    have "p \<in> set (p # ps)" "snd p \<in> set (map snd (butlast (p # ps))) \<or> p = last (p # ps)"
      by (cases ps; simp)+
    with r True show ?thesis by blast
  next
    case False
    with Cons.prems(2) have ne: "ps \<noteq> []" and c: "c \<in> set (snd p # map snd (butlast ps))"
      by (auto split: if_splits)
    from Cons.IH [OF rest c ne] obtain r' p' where
      p': "srv (cursor_request url headers c) = Inr r'" "cursor_page r' (fst p') (snd p')"
      "p' \<in> set ps" "snd p' \<in> set (map snd (butlast ps)) \<or> p' = last ps" by blast
    from p'(3,4) ne have "p' \<in> set (p # ps)"
      "snd p' \<in> set (map snd (butlast (p # ps))) \<or> p' = last (p # ps)" by auto
    with p'(1,2) show ?thesis by blast
  qed
qed

text \<open>
  C5, as the code has it. The source has no guard against a repeated token. When the
  remote side answers by the request alone and serves a page sequence with a token
  cycle (every page has a token, and the token of the last page is the token of an
  earlier one), the monitor's \<^verbatim>\<open>fetch_members\<close> never returns: no error is raised and
  no result is produced.
\<close>

theorem token_cycle_never_returns:
  "cursor_served (\<lambda>sent. srv) (members_url org_id) (members_headers api_token) sent JNull pages
     \<and> token_cycle pages \<longrightarrow>
   monitor_fetch_members (\<lambda>sent. srv) sent api_token org_id = None"
proof
  let ?U = "members_url org_id" and ?H = "members_headers api_token"
  let ?S = "set (JNull # map snd (butlast pages))"
  assume a: "cursor_served (\<lambda>sent. srv) ?U ?H sent JNull pages \<and> token_cycle pages"
  then have served: "cursor_served (\<lambda>sent. srv) ?U ?H sent JNull pages"
    and ne: "pages \<noteq> []" and tok: "list_all has_token pages"
    and cyc: "snd (last pages) \<in> set (map snd (butlast pages))"
    by (simp_all add: token_cycle_def)
  have closed: "\<exists>r recs tok. (\<lambda>sent. srv) sent' (cursor_request ?U ?H c) = Inr r \<and> cursor_page r recs tok \<and>
        truthy tok \<and> tok \<in> ?S" if "c \<in> ?S" for c sent'
  proof -
    from served_by_request [OF served that ne] obtain r p where
      p: "srv (cursor_request ?U ?H c) = Inr r" "cursor_page r (fst p) (snd p)" "p \<in> set pages"
      "snd p \<in> set (map snd (butlast pages)) \<or> p = last pages" by blast
    from tok p(3) have "truthy (snd p)" by (simp add: list_all_iff has_token_def)
    moreover from p(4) cyc have "snd p \<in> ?S" by auto
    ultimately show ?thesis using p(1,2) by blast
  qed
  have start: "JNull \<in> ?S" by simp
  have "monitor_fetch_loop (\<lambda>sent. srv) ?U ?H [] JNull sent = None"
    by (rule monitor_never_returns [where nt = "\<lambda>sent. srv" and S = ?S, OF closed start])
  then show "monitor_fetch_members (\<lambda>sent. srv) sent api_token org_id = None"
    by (simp add: monitor_fetch_members_def)
qed

theorem token_cycle_never_returns_witness:
  "cursor_served (\<lambda>sent. ring_srv) (members_url ''org1'') (members_headers ''tok'') [] JNull
      [([], JStr ''a''), ([], JStr ''b''), ([], JStr ''a'')]
   \<and> token_cycle [([], JStr ''a''), ([], JStr ''b''), ([], JStr ''a'')]
   \<and> monitor_fetch_members (\<lambda>sent. ring_srv) [] ''tok'' ''org1'' = None"
proof -
  have s: "cursor_served (\<lambda>sent. ring_srv) (members_url ''org1'') (members_headers ''tok'') [] JNull
      [([], JStr ''a''), ([], JStr ''b''), ([], JStr ''a'')]"
    by (simp add: ring_srv_def cursor_request_def cursor_params_def cursor_page_ok)
  have c: "token_cycle [([], JStr ''a''), ([], JStr ''b''), ([], JStr ''a'')]"
    by (simp add: token_cycle_def has_token_def)
  from s c token_cycle_never_returns
    [of ring_srv "''org1''" "''tok''" "[]" "[([], JStr ''a''), ([], JStr ''b''), ([], JStr ''a'')]"]
  show ?thesis by simp
qed

text \<open>
  Against C5 as stated: every page carries the token \<^verbatim>\<open>again\<close>, so the second page
  repeats the token of the first; the fetch does not end with an error, it does not end.
\<close>

theorem repeated_token_loops_forever:
  "monitor_fetch_members (constant_net (ok_page [] (JStr ''again'') JNull)) [] ''tok'' ''org1'' = None"
proof -
  have "monitor_fetch_loop (constant_net (ok_page [] (JStr ''again'') JNull))
      (members_url ''org1'') (members_headers ''tok'') [] JNull [] = None"
  proof (rule monitor_never_returns [where S = "{JNull, JStr ''again''}"])
    fix c :: json and sent
    assume "c \<in> {JNull, JStr ''again''}"
    have "constant_net (ok_page [] (JStr ''again'') JNull) sent
        (cursor_request (members_url ''org1'') (members_headers ''tok'') c) =
        Inr (ok_page [] (JStr ''again'') JNull)"
      by (simp add: constant_net_def)
    moreover have "cursor_page (ok_page [] (JStr ''again'') JNull) [] (JStr ''again'')"
      by (rule cursor_page_ok)
    ultimately show "\<exists>r recs tok.
        constant_net (ok_page [] (JStr ''again'') JNull) sent
          (cursor_request (members_url ''org1'') (members_headers ''tok'') c) = Inr r \<and>
        cursor_page r recs tok \<and> truthy tok \<and> tok \<in> {JNull, JStr ''again''}"
      by fastforce
  qed simp
  then show ?thesis by (simp add: monitor_fetch_members_def)
qed

subsection \<open>The requests a cursor-style fetch sends\<close>

lemma later_request_cursor:
  "truthy c \<Longrightarrow> later_request url headers (cursor_request url headers c)"
  by (simp add: later_request_def cursor_request_def cursor_params_def)

lemma monitor_loop_sent:
  assumes "monitor_fetch_loop nt url headers members cursor sent = Some y"
  shows "\<exists>rest. snd y = sent @ cursor_request url headers cursor # rest \<and>
                list_all (later_request url headers) rest"
proof (rule monitor_fetch_loop.raw_induct
    [where P = "\<lambda>nt url headers members cursor sent y.
        \<exists>rest. snd y = sent @ cursor_request url headers cursor # rest \<and>
               list_all (later_request url headers) rest", OF _ assms], goal_cases)
  case (1 loop nt url headers members cursor sent y)
  let ?req = "cursor_request url headers cursor"
  show ?case
  proof (cases "\<exists>members' cursor'. truthy cursor' \<and>
      loop nt url headers members' cursor' (sent @ [?req]) = Some y")
    case True
    then obtain members' cursor' where c: "truthy cursor'"
      and l: "loop nt url headers members' cursor' (sent @ [?req]) = Some y" by blast
    from "1"(1) [OF l] obtain rest where
      "snd y = (sent @ [?req]) @ cursor_request url headers cursor' # rest"
      "list_all (later_request url headers) rest" by blast
    with c show ?thesis by (simp add: later_request_cursor)
  next
    case False
    with "1"(2) have "snd y = sent @ [?req]"
      by (auto simp: Let_def cursor_request_def split: sum.splits option.splits if_splits)
    then show ?thesis by simp
  qed
qed

lemma members_loop_sent:
  assumes "members_fetch_loop nt url headers members cursor sent = Some y"
  shows "\<exists>rest. snd y = sent @ cursor_request url headers cursor # rest \<and>
                list_all (later_request url headers) rest"
proof (rule members_fetch_loop.raw_induct
    [where P = "\<lambda>nt url headers members cursor sent y.
        \<exists>rest. snd y = sent @ cursor_request url headers cursor # rest \<and>
               list_all (later_request url headers) rest", OF _ assms], goal_cases)
  case (1 loop nt url headers members cursor sent y)
  let ?req = "cursor_request url headers cursor"
  show ?case
  proof (cases "\<exists>members' cursor'. truthy cursor' \<and>
      loop nt url headers members' cursor' (sent @ [?req]) = Some y")
    case True
    then obtain members' cursor' where c: "truthy cursor'"
      and l: "loop nt url headers members' cursor' (sent @ [?req]) = Some y" by blast
    from "1"(1) [OF l] obtain rest where
      "snd y = (sent @ [?req]) @ cursor_request url headers cursor' # rest"
      "list_all (later_request url headers) rest" by blast
    with c show ?thesis by (simp add: later_request_cursor)
  next
    case False
    with "1"(2) have "snd y = sent @ [?req]"
      by (auto simp: Let_def cursor_request_def split: sum.splits option.splits if_splits)
    then show ?thesis by simp
  qed
qed

text \<open>
  C9. In both cursor-style fetchers a page whose token is falsy ends the pagination with
  the records so far: an absent \<^verbatim>\<open>cursor\<close> key, a null and the empty string are all
  read as such a token. Whenever a fetch returns, its first request carries no
  parameter at all, and every later request carries exactly one \<^verbatim>\<open>cursor\<close> parameter
  with a truthy value: no request is sent with an empty cursor.
\<close>

theorem falsy_cursor_ends:
  "(nt sent (cursor_request url headers cursor) = Inr r \<and> cursor_page r recs tok \<and> \<not> truthy tok \<longrightarrow>
      monitor_fetch_loop nt url headers members cursor sent =
        Some (Inr (members @ recs), sent @ [cursor_request url headers cursor])
      \<and> members_fetch_loop nt url headers members cursor sent =
        Some (Inr (members @ recs), sent @ [cursor_request url headers cursor]))
   \<and> (map_of kvs ''cursor'' \<in> {None, Some JNull, Some (JStr [])} \<longrightarrow>
      (\<exists>tok. dict_get (JObj kvs) ''cursor'' JNull = Inr tok \<and> \<not> truthy tok))
   \<and> (monitor_fetch_members nt sent api_token org_id = Some y \<longrightarrow>
      (\<exists>rest. snd y = sent @ Get (JStr (members_url org_id)) (members_headers api_token) [] # rest
         \<and> list_all (later_request (members_url org_id) (members_headers api_token)) rest))
   \<and> (members_fetch_members nt sent (line # stdin) api_token = Some y \<longrightarrow>
      (\<exists>rest. snd y = sent @ Get (JStr (members_url (strip line))) (members_headers api_token) [] # rest
         \<and> list_all (later_request (members_url (strip line)) (members_headers api_token)) rest))"
proof -
  have first: "cursor_request U H JNull = Get (JStr U) H []" for U H
    by (simp add: cursor_request_def cursor_params_def)
  have a: "monitor_fetch_loop nt url headers members cursor sent =
        Some (Inr (members @ recs), sent @ [cursor_request url headers cursor])
      \<and> members_fetch_loop nt url headers members cursor sent =
        Some (Inr (members @ recs), sent @ [cursor_request url headers cursor])"
    if "nt sent (cursor_request url headers cursor) = Inr r" "cursor_page r recs tok" "\<not> truthy tok"
    using monitor_step [where nt = nt and members = members, OF that(1,2)]
      members_step [where nt = nt and members = members, OF that(1,2)] that(3)
    by simp
  have b: "\<exists>tok. dict_get (JObj kvs) ''cursor'' JNull = Inr tok \<and> \<not> truthy tok"
    if "map_of kvs ''cursor'' \<in> {None, Some JNull, Some (JStr [])}"
    using that by (auto simp: dict_get_obj)
  have c: "\<exists>rest. snd y = sent @ Get (JStr (members_url org_id)) (members_headers api_token) [] # rest
         \<and> list_all (later_request (members_url org_id) (members_headers api_token)) rest"
    if "monitor_fetch_members nt sent api_token org_id = Some y"
    using monitor_loop_sent [of nt "members_url org_id" "members_headers api_token" "[]" JNull sent y]
      that by (simp add: monitor_fetch_members_def first)
  have d: "\<exists>rest. snd y = sent @ Get (JStr (members_url (strip line))) (members_headers api_token) [] # rest
         \<and> list_all (later_request (members_url (strip line)) (members_headers api_token)) rest"
    if "members_fetch_members nt sent (line # stdin) api_token = Some y"
    using members_loop_sent [of nt "members_url (strip line)" "members_headers api_token" "[]" JNull sent y]
      that by (simp add: members_fetch_members_def first)
  from a b c d show ?thesis by blast
qed


theorem falsy_cursor_ends_witness:
  "scripted [empty_cursor_page] [] (cursor_request (members_url ''org1'') (members_headers ''tok'') JNull)
     = Inr empty_cursor_page
   \<and> cursor_page empty_cursor_page [member ''m1'' True ''full''] (JStr [])
   \<and> monitor_fetch_loop (scripted [empty_cursor_page]) (members_url ''org1'') (members_headers ''tok'') [] JNull []
       = Some (Inr [member ''m1'' True ''full''],
               [Get (JStr (members_url ''org1'')) (members_headers ''tok'') []])
   \<and> members_fetch_loop (scripted [empty_cursor_page]) (members_url ''org1'') (members_headers ''tok'') [] JNull []
       = Some (Inr [member ''m1'' True ''full''],
               [Get (JStr (members_url ''org1'')) (members_headers ''tok'') []])
   \<and> (\<exists>tok. dict_get (JObj [(''data'', JList []), (''cursor'', JNull)]) ''cursor'' JNull = Inr tok
         \<and> \<not> truthy tok)
   \<and> (\<exists>y rest. monitor_fetch_members (scripted three_pages) [] ''tok'' ''org1'' = Some y
         \<and> snd y = Get (JStr (members_url ''org1'')) (members_headers ''tok'') [] # rest
         \<and> list_all (later_request (members_url ''org1'') (members_headers ''tok'')) rest
         \<and> length rest = 2)
   \<and> (\<exists>y rest. members_fetch_members (scripted three_pages) [] [''org1''] ''tok'' = Some y
         \<and> snd y = Get (JStr (members_url ''org1'')) (members_headers ''tok'') [] # rest
         \<and> list_all (later_request (members_url ''org1'') (members_headers ''tok'')) rest
         \<and> length rest = 2)"
proof -
  let ?U = "members_url ''org1''" and ?H = "members_headers ''tok''"
  let ?nt = "scripted [empty_cursor_page]"
  have s: "strip ''org1'' = ''org1''" by (simp add: strip_def is_space_def)
  have 1: "?nt [] (cursor_request ?U ?H JNull) = Inr empty_cursor_page"
    by (simp add: scripted_def)
  have 2: "cursor_page empty_cursor_page [member ''m1'' True ''full''] (JStr [])"
    by (simp add: cursor_page_def empty_cursor_page_def dict_get_obj)
  have 3: "\<not> truthy (JStr [])" by simp
  have first: "cursor_request ?U ?H JNull = Get (JStr ?U) ?H []"
    by (simp add: cursor_request_def cursor_params_def)
  have 4: "map_of [(''data'', JList []), (''cursor'', JNull)] ''cursor'' \<in> {None, Some JNull, Some (JStr [])}"
    by simp
  have c: "complete_pages cursor_pages3" by (simp add: cursor_pages3_def has_token_def)
  have 5: "monitor_fetch_members (scripted three_pages) [] ''tok'' ''org1'' =
      Some (Inr ([] @ concat (map fst cursor_pages3)), [] @ cursor_requests ?U ?H JNull cursor_pages3)"
    unfolding monitor_fetch_members_def
    by (rule cursor_complete [where L = "monitor_fetch_loop (scripted three_pages) ?U ?H",
          OF monitor_step cursor_served_three c])
  have 6: "members_fetch_members (scripted three_pages) [] [''org1''] ''tok'' =
      Some (Inr ([] @ concat (map fst cursor_pages3)), [] @ cursor_requests ?U ?H JNull cursor_pages3)"
    unfolding members_fetch_members_def list.case Let_def s
    by (rule cursor_complete [where L = "members_fetch_loop (scripted three_pages) ?U ?H",
          OF members_step cursor_served_three c])
  have len: "length (cursor_requests ?U ?H JNull cursor_pages3) = 3"
    by (simp add: cursor_pages3_def)
  note th = falsy_cursor_ends
    [where nt = ?nt and sent = "[]" and url = ?U and headers = ?H and cursor = JNull
      and r = empty_cursor_page and recs = "[member ''m1'' True ''full'']" and tok = "JStr []"
      and members = "[]" and kvs = "[(''data'', JList []), (''cursor'', JNull)]"]
  from th 1 2 3 have a: "monitor_fetch_loop ?nt ?U ?H [] JNull [] = Some (Inr [member ''m1'' True ''full''], [Get (JStr ?U) ?H []])"
    "members_fetch_loop ?nt ?U ?H [] JNull [] = Some (Inr [member ''m1'' True ''full''], [Get (JStr ?U) ?H []])"
    by (simp_all add: first)
  from th 4 have b: "\<exists>tok. dict_get (JObj [(''data'', JList []), (''cursor'', JNull)]) ''cursor'' JNull = Inr tok
         \<and> \<not> truthy tok" by blast
  from falsy_cursor_ends [THEN conjunct2, THEN conjunct2, THEN conjunct1, rule_format, OF 5]
  obtain rest where r1: "cursor_requests ?U ?H JNull cursor_pages3 = Get (JStr ?U) ?H [] # rest"
    "list_all (later_request ?U ?H) rest" by auto
  with len have l1: "length rest = 2" by simp
  from falsy_cursor_ends [THEN conjunct2, THEN conjunct2, THEN conjunct2, rule_format, OF 6]
  obtain rest' where r2: "cursor_requests ?U ?H JNull cursor_pages3 = Get (JStr ?U) ?H [] # rest'"
    "list_all (later_request ?U ?H) rest'" by (auto simp: s)
  with len have l2: "length rest' = 2" by simp
  from 5 r1 l1 have c5: "\<exists>y rest. monitor_fetch_members (scripted three_pages) [] ''tok'' ''org1'' = Some y
         \<and> snd y = Get (JStr ?U) ?H [] # rest \<and> list_all (later_request ?U ?H) rest \<and> length rest = 2"
    by simp
  from 6 r2 l2 have c6: "\<exists>y rest. members_fetch_members (scripted three_pages) [] [''org1''] ''tok'' = Some y
         \<and> snd y = Get (JStr ?U) ?H [] # rest \<and> list_all (later_request ?U ?H) rest \<and> length rest = 2"
    by simp
  from 1 2 a b c5 c6 show ?thesis by blast
qed

subsection \<open>The report of the monitor\<close>

lemma not_post_later: "later_request url headers req \<Longrightarrow> \<not> is_post req"
  by (cases req) (simp_all add: later_request_def is_post_def)

lemma is_post_simps: "is_post (Post u payload)" "\<not> is_post (Get url h ps)"
  by (simp_all add: is_post_def)

lemma monitor_fetch_no_post:
  assumes "monitor_fetch_members nt [] api_token org_id = Some (res, sent)"
  shows "filter is_post sent = []"
proof -
  from monitor_loop_sent [of nt "members_url org_id" "members_headers api_token" "[]" JNull "[]"
      "(res, sent)"] assms
  obtain rest where "sent = cursor_request (members_url org_id) (members_headers api_token) JNull # rest"
    "list_all (later_request (members_url org_id) (members_headers api_token)) rest"
    by (auto simp: monitor_fetch_members_def)
  then show ?thesis
    by (auto simp: filter_empty_conv list_all_iff not_post_later cursor_request_def is_post_simps)
qed

text \<open>
  C8. When the three environment variables are set, the fetch returns members, the
  count succeeds and the webhook answers the post with a status outside 400 to 599, the
  monitor ends normally having posted exactly one message to the webhook, the text
  chosen for the count, whether the count exceeds the total or not. Conversely every run
  of the monitor that ends normally has sent exactly one post.
\<close>

theorem one_report_per_run:
  "(getenv ''MIRO_API_TOKEN'' = Some api_token \<and> api_token \<noteq> []
      \<and> getenv ''MIRO_ORG_ID'' = Some org_id \<and> org_id \<noteq> []
      \<and> getenv ''SLACK_WEBHOOK_URL'' = Some webhook \<and> webhook \<noteq> []
      \<and> monitor_fetch_members nt [] api_token org_id = Some (Inr members, sent)
      \<and> licensed_users members = Inr licensed
      \<and> nt sent (Post webhook (JObj [(''text'', JStr (alert_message (int (length licensed)) total_licenses))]))
          = Inr r
      \<and> raise_for_status r = Inr () \<longrightarrow>
      monitor_main getenv nt =
        Some (Inr (), sent @ [Post webhook (JObj [(''text'', JStr (alert_message (int (length licensed)) total_licenses))])])
      \<and> filter is_post (sent @ [Post webhook (JObj [(''text'', JStr (alert_message (int (length licensed)) total_licenses))])])
          = [Post webhook (JObj [(''text'', JStr (alert_message (int (length licensed)) total_licenses))])])
   \<and> (monitor_main getenv nt = Some (Inr (), sent') \<longrightarrow> length (filter is_post sent') = 1)"
proof -
  have fwd: "monitor_main getenv nt =
        Some (Inr (), sent @ [Post webhook (JObj [(''text'', JStr (alert_message (int (length licensed)) total_licenses))])])
      \<and> filter is_post (sent @ [Post webhook (JObj [(''text'', JStr (alert_message (int (length licensed)) total_licenses))])])
          = [Post webhook (JObj [(''text'', JStr (alert_message (int (length licensed)) total_licenses))])]"
    if "getenv ''MIRO_API_TOKEN'' = Some api_token" "api_token \<noteq> []"
      "getenv ''MIRO_ORG_ID'' = Some org_id" "org_id \<noteq> []"
      "getenv ''SLACK_WEBHOOK_URL'' = Some webhook" "webhook \<noteq> []"
      "monitor_fetch_members nt [] api_token org_id = Some (Inr members, sent)"
      "licensed_users members = Inr licensed"
      "nt sent (Post webhook (JObj [(''text'', JStr (alert_message (int (length licensed)) total_licenses))]))
          = Inr r"
      "raise_for_status r = Inr ()"
    using that monitor_fetch_no_post [OF that(7)]
    by (simp add: monitor_main_def env_missing_def post_to_slack_def Let_def is_post_simps)
  have bwd: "length (filter is_post sent') = 1" if m: "monitor_main getenv nt = Some (Inr (), sent')"
  proof -
    from m obtain api_token org_id webhook where env:
      "getenv ''MIRO_API_TOKEN'' = Some api_token" "getenv ''MIRO_ORG_ID'' = Some org_id"
      "getenv ''SLACK_WEBHOOK_URL'' = Some webhook"
      "\<not> (env_missing (getenv ''MIRO_API_TOKEN'') \<or> env_missing (getenv ''MIRO_ORG_ID'')
           \<or> env_missing (getenv ''SLACK_WEBHOOK_URL''))"
      by (auto simp: monitor_main_def env_missing_def Let_def split: if_splits option.splits)
    from m env have "\<exists>members sent n.
        monitor_fetch_members nt [] api_token org_id = Some (Inr members, sent) \<and>
        post_to_slack nt sent webhook (alert_message n total_licenses) = (Inr (), sent')"
      by (auto simp: monitor_main_def Let_def split: option.splits sum.splits prod.splits)
    then obtain members sent n where
      f: "monitor_fetch_members nt [] api_token org_id = Some (Inr members, sent)"
      and p: "post_to_slack nt sent webhook (alert_message n total_licenses) = (Inr (), sent')"
      by blast
    from p have "\<exists>req. is_post req \<and> sent' = sent @ [req]"
      by (auto simp: post_to_slack_def Let_def is_post_simps split: sum.splits)
    with monitor_fetch_no_post [OF f] show ?thesis by auto
  qed
  from fwd bwd show ?thesis by blast
qed


theorem one_report_per_run_witness:
  "monitor_main monitor_env (scripted monitor_run) =
     Some (Inr (),
           [Get (JStr (members_url ''org1'')) (members_headers ''tok'') [],
            Get (JStr (members_url ''org1'')) (members_headers ''tok'') [(''cursor'', JStr ''c2'')],
            Get (JStr (members_url ''org1'')) (members_headers ''tok'') [(''cursor'', JStr ''c3'')],
            Post ''https://hooks.slack.com/services/T/B/X''
              (JObj [(''text'', JStr (message_text (WithinLimit 1 600 599)))])])
   \<and> length (filter is_post
       [Get (JStr (members_url ''org1'')) (members_headers ''tok'') [],
        Get (JStr (members_url ''org1'')) (members_headers ''tok'') [(''cursor'', JStr ''c2'')],
        Get (JStr (members_url ''org1'')) (members_headers ''tok'') [(''cursor'', JStr ''c3'')],
        Post ''https://hooks.slack.com/services/T/B/X''
          (JObj [(''text'', JStr (message_text (WithinLimit 1 600 599)))])]) = 1"
proof -
  let ?U = "members_url ''org1''" and ?H = "members_headers ''tok''"
  let ?nt = "scripted monitor_run"
  let ?ms = "[member ''m1'' True ''full'', member ''m2'' False ''full'', member ''m3'' True ''basic'']"
  let ?gets = "[Get (JStr ?U) ?H [], Get (JStr ?U) ?H [(''cursor'', JStr ''c2'')],
                Get (JStr ?U) ?H [(''cursor'', JStr ''c3'')]]"
  let ?post = "Post ''https://hooks.slack.com/services/T/B/X''
                 (JObj [(''text'', JStr (alert_message (int (length [member ''m1'' True ''full''])) total_licenses))])"
  have served: "cursor_served ?nt ?U ?H [] JNull cursor_pages3"
    by (simp add: monitor_run_def three_pages_def cursor_pages3_def scripted_at cursor_page_ok
        cursor_page_last)
  have c: "complete_pages cursor_pages3" by (simp add: cursor_pages3_def has_token_def)
  have "monitor_fetch_members ?nt [] ''tok'' ''org1'' =
      Some (Inr ([] @ concat (map fst cursor_pages3)), [] @ cursor_requests ?U ?H JNull cursor_pages3)"
    unfolding monitor_fetch_members_def
    by (rule cursor_complete [where L = "monitor_fetch_loop ?nt ?U ?H", OF monitor_step served c])
  then have f: "monitor_fetch_members ?nt [] ''tok'' ''org1'' = Some (Inr ?ms, ?gets)"
    by (simp add: cursor_pages3_def cursor_request_def cursor_params_def)
  have l: "licensed_users ?ms = Inr [member ''m1'' True ''full'']"
    by (simp add: member_def dict_get_obj)
  have p: "?nt ?gets ?post = Inr \<lparr>status_code = 200, body = None\<rparr>"
    by (simp add: monitor_run_def three_pages_def scripted_def)
  have r: "raise_for_status \<lparr>status_code = 200, body = None\<rparr> = Inr ()"
    by (simp add: raise_for_status_def)
  have e: "monitor_env ''MIRO_API_TOKEN'' = Some ''tok''" "monitor_env ''MIRO_ORG_ID'' = Some ''org1''"
    "monitor_env ''SLACK_WEBHOOK_URL'' = Some ''https://hooks.slack.com/services/T/B/X''"
    by (simp_all add: monitor_env_def)
  have msg: "alert_message (int (length [member ''m1'' True ''full''])) total_licenses =
      message_text (WithinLimit 1 600 599)"
    by (simp add: alert_message_def total_licenses_def)
  from one_report_per_run [where getenv = monitor_env and nt = ?nt and api_token = "''tok''"
      and org_id = "''org1''" and webhook = "''https://hooks.slack.com/services/T/B/X''"
      and members = ?ms and sent = ?gets and licensed = "[member ''m1'' True ''full'']"
      and r = "\<lparr>status_code = 200, body = None\<rparr>", THEN conjunct1, rule_format] e f l p r
  have "monitor_main monitor_env ?nt = Some (Inr (), ?gets @ [?post])
      \<and> filter is_post (?gets @ [?post]) = [?post]"
    by simp
  then show ?thesis unfolding msg by simp
qed

subsection \<open>The default of the two date columns\<close>

text \<open>
  C10. In the row of a typed member the cells of \<^verbatim>\<open>lastActivityAt\<close> and
  \<^verbatim>\<open>licenseAssignedAt\<close> are \<^verbatim>\<open>N/A\<close> only when the record has no such key; a key
  with a null value gives the empty cell, and any other value its text.
\<close>

theorem na_only_without_key:
  "export_member_typed (JObj kvs) \<longrightarrow>
     (\<exists>cells. members_export_to_csv repr [JObj kvs] = (None, [members_fieldnames, cells])
        \<and> length cells = 9
        \<and> cells ! 4 = (case map_of kvs ''lastActivityAt'' of
                         None \<Rightarrow> ''N/A'' | Some JNull \<Rightarrow> [] | Some v \<Rightarrow> py_str repr v)
        \<and> cells ! 6 = (case map_of kvs ''licenseAssignedAt'' of
                         None \<Rightarrow> ''N/A'' | Some JNull \<Rightarrow> [] | Some v \<Rightarrow> py_str repr v))"
proof
  assume t: "export_member_typed (JObj kvs)"
  then have "list_all export_member_typed [JObj kvs]" by simp
  then have "members_write_rows repr [JObj kvs] [members_fieldnames] =
      (None, [members_fieldnames] @ map (member_cells repr) [JObj kvs])"
    by (rule members_write_rows_typed)
  then have e: "members_export_to_csv repr [JObj kvs] =
      (None, [members_fieldnames, member_cells repr (JObj kvs)])"
    by (simp add: members_export_to_csv_def)
  have d: "default_cell repr (JObj kvs) k =
      (case map_of kvs k of None \<Rightarrow> ''N/A'' | Some JNull \<Rightarrow> [] | Some v \<Rightarrow> py_str repr v)" for k
    by (simp add: default_cell_def csv_field_def split: option.splits json.splits)
  have "length (member_cells repr (JObj kvs)) = 9"
    "member_cells repr (JObj kvs) ! 4 = default_cell repr (JObj kvs) ''lastActivityAt''"
    "member_cells repr (JObj kvs) ! 6 = default_cell repr (JObj kvs) ''licenseAssignedAt''"
    by (simp_all add: member_cells_def)
  with e d show "\<exists>cells. members_export_to_csv repr [JObj kvs] = (None, [members_fieldnames, cells])
        \<and> length cells = 9
        \<and> cells ! 4 = (case map_of kvs ''lastActivityAt'' of
                         None \<Rightarrow> ''N/A'' | Some JNull \<Rightarrow> [] | Some v \<Rightarrow> py_str repr v)
        \<and> cells ! 6 = (case map_of kvs ''licenseAssignedAt'' of
                         None \<Rightarrow> ''N/A'' | Some JNull \<Rightarrow> [] | Some v \<Rightarrow> py_str repr v)"
    by simp
qed

theorem na_only_without_key_witness:
  "export_member_typed member1
   \<and> (\<exists>cells. members_export_to_csv plain_repr [member1] = (None, [members_fieldnames, cells])
        \<and> cells ! 4 = [] \<and> cells ! 6 = ''N/A'')
   \<and> export_member_typed member2
   \<and> (\<exists>cells. members_export_to_csv plain_repr [member2] = (None, [members_fieldnames, cells])
        \<and> cells ! 4 = ''N/A'' \<and> cells ! 6 = [])"
proof -
  have t: "export_member_typed member1" "export_member_typed member2"
    by (simp_all add: export_member_typed_def member1_def member2_def is_str_def)
  from na_only_without_key [where repr = plain_repr and kvs = "[(''id'', JStr ''m1''), (''active'', JBool True),
                   (''adminRoles'', JList [JStr ''admin'', JStr ''billing'']),
                   (''email'', JStr ''a@x.org''), (''lastActivityAt'', JNull),
                   (''license'', JStr ''full''), (''role'', JStr ''member''), (''type'', JStr ''user'')]"]
    t(1)
  have 1: "\<exists>cells. members_export_to_csv plain_repr [member1] = (None, [members_fieldnames, cells])
        \<and> cells ! 4 = [] \<and> cells ! 6 = ''N/A''"
    unfolding member1_def by auto
  from na_only_without_key [where repr = plain_repr and kvs = "[(''id'', JStr ''m2''), (''active'', JBool False),
                   (''licenseAssignedAt'', JNull), (''license'', JStr ''basic'')]"]
    t(2)
  have 2: "\<exists>cells. members_export_to_csv plain_repr [member2] = (None, [members_fieldnames, cells])
        \<and> cells ! 4 = ''N/A'' \<and> cells ! 6 = []"
    unfolding member2_def by auto
  from t 1 2 show ?thesis by blast
qed

subsection \<open>Missing inputs\<close>

text \<open>
  The monitor raises \<^verbatim>\<open>ValueError\<close> before any request when one of its three
  variables is unset or empty, and both exports return before any request when the
  token file is missing, unreadable or blank.
\<close>

lemma monitor_requires_env:
  "env_missing (getenv ''MIRO_API_TOKEN'') \<or> env_missing (getenv ''MIRO_ORG_ID'')
     \<or> env_missing (getenv ''SLACK_WEBHOOK_URL'') \<Longrightarrow>
   monitor_main getenv nt = Some (Inl ValueError, [])"
  by (simp add: monitor_main_def Let_def)

lemma exports_require_token:
  assumes "fs (strip line) = NoFile \<or> fs (strip line) = Unreadable
           \<or> (\<exists>text. fs (strip line) = File text \<and> strip text = [])"
  shows "members_main fs repr nt (line # stdin) = Some \<lparr>raised = None, requests = [], csv = None\<rparr>"
    and "boards_main fs repr nt (line # stdin) = Some \<lparr>raised = None, requests = [], csv = None\<rparr>"
  using assms by (auto simp: members_main_def boards_main_def Let_def)

text \<open>
  C6 fails in the members export: the organization id typed at the prompt is stripped
  and used without a test. With a token file holding \<^verbatim>\<open>tok\<close> and an empty line at the
  prompt, the script sends a request to \<^verbatim>\<open>/v2/orgs//members\<close> under the token.
\<close>

theorem empty_org_id_is_requested:
  "members_main token_fs plain_repr (scripted [server_error]) [''token.txt'', ''''] =
     Some \<lparr>raised = None,
           requests = [Get (JStr ''https://api.miro.com/v2/orgs//members'')
                         [(''Authorization'', ''Bearer tok''), (''Accept'', ''application/json'')] []],
           csv = None\<rparr>"
proof -
  let ?U = "members_url (strip '''')" and ?H = "members_headers ''tok''"
  have s: "strip ''token.txt'' = ''token.txt''" "strip ''tok'' = ''tok''" "strip '''' = ''''"
    by (simp_all add: strip_def is_space_def)
  have 1: "scripted [server_error] [] (cursor_request ?U ?H JNull) = Inr server_error"
    by (simp add: scripted_def)
  have "members_fetch_loop (scripted [server_error]) ?U ?H [] JNull [] =
      Some (Inr [], [] @ [cursor_request ?U ?H JNull])"
    by (rule members_fail_status [where nt = "scripted [server_error]" and r = server_error, OF 1])
      (simp add: server_error_def)
  then have "members_fetch_members (scripted [server_error]) [] [''''] ''tok'' =
      Some (Inr [], [Get (JStr ''https://api.miro.com/v2/orgs//members'')
                         [(''Authorization'', ''Bearer tok''), (''Accept'', ''application/json'')] []])"
    by (simp add: members_fetch_members_def s cursor_request_def cursor_params_def members_url_def
        members_headers_def)
  then show ?thesis
    by (simp add: members_main_def token_fs_def s)
qed

end
